theory Spec2Isabelle
  imports Complex_Main "HOL-Library.Multiset" "HOL-Library.List_Lexorder" "HOL-Library.Word"
begin

section \<open>Polidle: the game logic of \<^verbatim>\<open>js/app.js\<close>\<close>

text \<open>
  The page keeps its state in the variables of one closure and changes it from event
  handlers that run to completion one after the other. The model is a record of those
  variables (with the one entry of \<^verbatim>\<open>localStorage\<close> the script uses, the few DOM nodes
  the properties below speak about, and the future results of \<^verbatim>\<open>Math.random()\<close>), and
  one function per handler that takes the state and returns the new one.
\<close>

subsection \<open>JavaScript values\<close>

text \<open>
  A JavaScript string is a sequence of UTF-16 code units; \<^verbatim>\<open>charCodeAt\<close> reads them and the
  default \<^verbatim>\<open>sort()\<close> and the relational operators compare them lexicographically. They
  are numbers here, and \<open>js\<close> writes an ASCII literal.
\<close>

type_synonym jsstring = "nat list"

definition js :: "string \<Rightarrow> jsstring" where
  "js cs = map of_char cs"

text \<open>
  A property of a record of the datasets is a string, \<^verbatim>\<open>null\<close>, or missing (reading it
  gives \<^verbatim>\<open>undefined\<close>). On these values \<^verbatim>\<open>===\<close> is equality of the datatype.
\<close>

datatype jsval = Undefined | Null | Str jsstring

text \<open>Truthiness, as \<^verbatim>\<open>Boolean(v)\<close>, \<^verbatim>\<open>if (v)\<close> and \<^verbatim>\<open>v || w\<close> read it.\<close>

fun truthy :: "jsval \<Rightarrow> bool" where
  "truthy Undefined = False"
| "truthy Null = False"
| "truthy (Str s) = (s \<noteq> [])"

text \<open>\<^verbatim>\<open>ToString\<close>, applied by string concatenation, by a property key and by \<^verbatim>\<open>sort()\<close>.\<close>

fun toString :: "jsval \<Rightarrow> jsstring" where
  "toString Undefined = js ''undefined''"
| "toString Null = js ''null''"
| "toString (Str s) = s"

text \<open>The decimal digits of a non-negative integer: \<^verbatim>\<open>String(n)\<close>.\<close>

fun decimal :: "nat \<Rightarrow> jsstring" where
  "decimal n = (if n < 10 then [48 + n] else decimal (n div 10) @ [48 + n mod 10])"

declare decimal.simps [simp del]

text \<open>A number that may be \<^verbatim>\<open>NaN\<close>; the others that occur are integers.\<close>

datatype jsnum = NaN | Num int

text \<open>\<^verbatim>\<open>n > b\<close> for a counter \<open>n\<close>: every comparison with \<^verbatim>\<open>NaN\<close> is false.\<close>

fun js_gt :: "nat \<Rightarrow> jsnum \<Rightarrow> bool" where
  "js_gt n NaN = False"
| "js_gt n (Num b) = (b < int n)"

datatype js_error = TypeError

subsection \<open>\<^verbatim>\<open>parseInt(string, 10)\<close>\<close>

text \<open>
  The white space and line terminators \<^verbatim>\<open>parseInt\<close> skips at the start of its argument.
\<close>

definition StrWhiteSpaceChar :: "nat \<Rightarrow> bool" where
  "StrWhiteSpaceChar c =
     (c = 0x9 \<or> c = 0xA \<or> c = 0xB \<or> c = 0xC \<or> c = 0xD \<or> c = 0x20 \<or> c = 0xA0 \<or>
      c = 0x1680 \<or> (0x2000 \<le> c \<and> c \<le> 0x200A) \<or> c = 0x2028 \<or> c = 0x2029 \<or>
      c = 0x202F \<or> c = 0x205F \<or> c = 0x3000 \<or> c = 0xFEFF)"

definition is_digit :: "nat \<Rightarrow> bool" where
  "is_digit c = (48 \<le> c \<and> c \<le> 57)"

definition digits_value :: "jsstring \<Rightarrow> int" where
  "digits_value ds = foldl (\<lambda>a c. a * 10 + (int c - 48)) 0 ds"

text \<open>
  \<^verbatim>\<open>parseInt\<close> with radix 10: skip white space, read one sign, take the longest run of
  decimal digits; no digit gives \<^verbatim>\<open>NaN\<close>. What follows the digits is ignored. (The
  result is a double in the source; it is the exact integer here, and \<^verbatim>\<open>-0\<close> is 0.)
\<close>

definition parseInt10 :: "jsstring \<Rightarrow> jsnum" where
  "parseInt10 inputString =
     (let S = dropWhile StrWhiteSpaceChar inputString;
          sign = (case S of c # _ \<Rightarrow> if c = 45 then - 1 else 1 | [] \<Rightarrow> (1::int));
          S1 = (case S of c # r \<Rightarrow> if c = 43 \<or> c = 45 then r else S | [] \<Rightarrow> S);
          Z = takeWhile is_digit S1
      in if Z = [] then NaN else Num (sign * digits_value Z))"

subsection \<open>\<^verbatim>\<open>Math.random\<close> and \<^verbatim>\<open>shuffle\<close>\<close>

text \<open>
  \<^verbatim>\<open>Math.random()\<close> returns a number \<open>r\<close> with \<open>0 \<le> r < 1\<close>. The state holds the results
  of the calls to come; a call takes the first and leaves the rest.
\<close>

typedef draw = "{r::real. 0 \<le> r \<and> r < 1}"
  by (rule exI [of _ 0]) simp

setup_lifting type_definition_draw

lift_definition draw_zero :: draw is 0
  by simp

type_synonym random = "nat \<Rightarrow> draw"

text \<open>The sequence of results that are all 0, used in the examples.\<close>

definition zeros :: random where
  "zeros = (\<lambda>_. draw_zero)"

text \<open>
  \<^verbatim>\<open>for (let i = arr.length - 1; i > 0; i--) { const j = Math.floor(Math.random() * (i + 1));
  [arr[i], arr[j]] = [arr[j], arr[i]]; }\<close>: \<open>shuffle_loop i\<close> is the loop from index \<open>i\<close>
  down. The right-hand side of the swap is read before either element is written.
\<close>

fun shuffle_loop :: "nat \<Rightarrow> 'a list \<Rightarrow> random \<Rightarrow> 'a list \<times> random" where
  "shuffle_loop 0 arr rng = (arr, rng)"
| "shuffle_loop (Suc k) arr rng =
     (let i = Suc k;
          j = nat \<lfloor>Rep_draw (rng 0) * real (i + 1)\<rfloor>
      in shuffle_loop k (arr[i := arr ! j, j := arr ! i]) (\<lambda>n. rng (Suc n)))"

definition shuffle :: "'a list \<Rightarrow> random \<Rightarrow> 'a list \<times> random" where
  "shuffle arr rng = shuffle_loop (length arr - 1) arr rng"

subsection \<open>The records of the datasets\<close>

text \<open>
  One parliamentarian, with the properties the script reads: \<^verbatim>\<open>nom_complet\<close>, \<^verbatim>\<open>type\<close>
  (\<^verbatim>\<open>"depute"\<close> or \<^verbatim>\<open>"senateur"\<close>), \<^verbatim>\<open>groupe_sigle\<close>, \<^verbatim>\<open>groupe_nom\<close> and \<^verbatim>\<open>photo\<close>.
\<close>

record politician =
  nom_complet :: jsval
  type :: jsval
  groupe_sigle :: jsval
  groupe_nom :: jsval
  photo :: jsval

subsection \<open>The party registry\<close>

text \<open>What the script reads of a party configuration: \<^verbatim>\<open>cfg.name\<close> and \<^verbatim>\<open>cfg.color\<close>.\<close>

record party_config =
  name :: jsval
  color :: jsval

definition entry :: "string \<Rightarrow> jsstring \<Rightarrow> string \<Rightarrow> jsstring \<times> party_config" where
  "entry key nm col = (js key, \<lparr>name = Str nm, color = Str (js col)\<rparr>)"

definition e_acute :: nat where
  "e_acute = 0xE9"

definition E_acute :: nat where
  "E_acute = 0xC9"

definition en_dash :: nat where
  "en_dash = 0x2013"

text \<open>The own properties of the object literal \<^verbatim>\<open>PARTY_COLORS\<close>, in the order of the source.\<close>

definition PARTY_COLORS :: "(jsstring \<times> party_config) list" where
  "PARTY_COLORS =
    [entry ''RN'' (js ''Rassemblement National'') ''#0D378A'',
     entry ''EPR'' (js ''Ensemble pour la R'' @ [e_acute] @ js ''publique'') ''#7B4FBE'',
     entry ''LFI-NFP'' (js ''La France insoumise '' @ [en_dash] @ js '' NFP'') ''#CC2443'',
     entry ''DR'' (js ''Droite R'' @ [e_acute] @ js ''publicaine'') ''#0077CC'',
     entry ''Dem'' (js ''Les D'' @ [e_acute] @ js ''mocrates'') ''#FF8C00'',
     entry ''HOR'' (js ''Horizons & Ind'' @ [e_acute] @ js ''pendants'') ''#00B4D8'',
     entry ''SOC'' (js ''Socialistes et apparent'' @ [e_acute] @ js ''s'') ''#FF6B81'',
     entry ''GDR'' (js ''Gauche D'' @ [e_acute] @ js ''mocrate et R'' @ [e_acute] @
        js ''publicaine'') ''#BB0000'',
     entry ''LIOT'' (js ''Libert'' @ [e_acute] @ js ''s, Ind'' @ [e_acute] @
        js ''pendants, Outre-mer et Territoires'') ''#D4A017'',
     entry ''EcoS'' ([E_acute] @ js ''cologiste et Social'') ''#00A86B'',
     entry ''UDR'' (js ''Union des droites pour la R'' @ [e_acute] @ js ''publique'') ''#1B3A5C'',
     entry ''NI'' (js ''Non inscrit'') ''#808080'',
     entry ''LR'' (js ''Les R'' @ [e_acute] @ js ''publicains'') ''#0066AA'',
     entry ''SER'' (js ''Socialiste, '' @ [E_acute] @ js ''cologiste et R'' @ [e_acute] @
        js ''publicain'') ''#E05080'',
     entry ''UC'' (js ''Union Centriste'') ''#00A0D2'',
     entry ''RDPI'' (js ''Rassemblement des d'' @ [e_acute] @
        js ''mocrates, progressistes et ind'' @ [e_acute] @ js ''pendants'') ''#DAA520'',
     entry ''CRCE-K'' (js ''Communiste R'' @ [e_acute] @ js ''publicain Citoyen '' @
        [E_acute] @ js ''cologiste '' @ [en_dash] @ js '' Kanaky'') ''#C40000'',
     entry ''RDSE'' (js ''Rassemblement D'' @ [e_acute] @ js ''mocratique et Social Europ'' @
        [e_acute] @ js ''en'') ''#E6A817'',
     entry ''GEST'' ([E_acute] @ js ''cologiste '' @ [en_dash] @ js '' Solidarit'' @
        [e_acute] @ js '' et Territoires'') ''#2ECC71'',
     entry ''INDEP'' (js ''Les Ind'' @ [e_acute] @ js ''pendants '' @ [en_dash] @ js '' R'' @
        [e_acute] @ js ''publique et Territoires'') ''#8B6914'']"

text \<open>
  \<^verbatim>\<open>PARTY_COLORS\<close> is an object literal, so \<^verbatim>\<open>PARTY_COLORS[sigle]\<close> also finds the properties
  it inherits from \<^verbatim>\<open>Object.prototype\<close>: eleven built-in functions, whose \<^verbatim>\<open>name\<close> is a
  string and which have no \<^verbatim>\<open>color\<close>, and \<^verbatim>\<open>__proto__\<close>, which is \<^verbatim>\<open>Object.prototype\<close>
  itself and has neither. All of them are objects, hence truthy.
\<close>

definition builtin :: "string \<Rightarrow> string \<Rightarrow> jsstring \<times> party_config" where
  "builtin key fname = (js key, \<lparr>name = Str (js fname), color = Undefined\<rparr>)"

definition Object_prototype :: "(jsstring \<times> party_config) list" where
  "Object_prototype =
    [builtin ''constructor'' ''Object'',
     builtin ''__defineGetter__'' ''__defineGetter__'',
     builtin ''__defineSetter__'' ''__defineSetter__'',
     builtin ''hasOwnProperty'' ''hasOwnProperty'',
     builtin ''__lookupGetter__'' ''__lookupGetter__'',
     builtin ''__lookupSetter__'' ''__lookupSetter__'',
     builtin ''isPrototypeOf'' ''isPrototypeOf'',
     builtin ''propertyIsEnumerable'' ''propertyIsEnumerable'',
     builtin ''toString'' ''toString'',
     builtin ''valueOf'' ''valueOf'',
     (js ''__proto__'', \<lparr>name = Undefined, color = Undefined\<rparr>),
     builtin ''toLocaleString'' ''toLocaleString'']"

text \<open>\<^verbatim>\<open>PARTY_COLORS[key]\<close>: an own property first, an inherited one next, else \<^verbatim>\<open>undefined\<close>.\<close>

definition PARTY_COLORS_get :: "jsval \<Rightarrow> party_config option" where
  "PARTY_COLORS_get key =
     (case map_of PARTY_COLORS (toString key) of
        Some cfg \<Rightarrow> Some cfg
      | None \<Rightarrow> map_of Object_prototype (toString key))"

subsection \<open>\<^verbatim>\<open>autoColor\<close>\<close>

text \<open>
  \<^verbatim>\<open>hash << 5\<close> converts \<open>hash\<close> to a 32-bit signed integer and shifts it, dropping the
  bits that leave the word; the subtraction and the addition around it are those of
  numbers, which do not wrap.
\<close>

definition shl5 :: "int \<Rightarrow> int" where
  "shl5 h = sint (push_bit 5 (word_of_int h :: 32 word))"

text \<open>\<^verbatim>\<open>a % b\<close> on integers: the remainder has the sign of the dividend.\<close>

definition js_rem :: "int \<Rightarrow> int \<Rightarrow> int" where
  "js_rem a b = sgn a * (\<bar>a\<bar> mod \<bar>b\<bar>)"

definition hash_of :: "jsstring \<Rightarrow> int" where
  "hash_of str = foldl (\<lambda>hash c. int c + (shl5 hash - hash)) 0 str"

text \<open>
  \<^verbatim>\<open>str.length\<close> throws a TypeError when \<open>str\<close> is \<^verbatim>\<open>undefined\<close> or \<^verbatim>\<open>null\<close>. On a string,
  \<open>hash\<close> grows by less than \<open>2^31 + 2^16\<close> in absolute value with each code unit, so for
  every string shorter than \<open>2^21\<close> code units the numbers of the source are integers that
  doubles hold exactly, and they are the integers of the model.
\<close>

fun autoColor :: "jsval \<Rightarrow> js_error + jsstring" where
  "autoColor (Str str) =
     (let hash = hash_of str;
          hue = nat \<bar>js_rem hash 360\<bar>
      in Inr (js ''hsl('' @ decimal hue @ js '', 55%, 45%)''))"
| "autoColor Undefined = Inl TypeError"
| "autoColor Null = Inl TypeError"

subsection \<open>\<^verbatim>\<open>getPartyConfig\<close>\<close>

text \<open>
  \<^verbatim>\<open>pool.find\<close> returns the first record whose \<^verbatim>\<open>groupe_sigle\<close> is \<^verbatim>\<open>===\<close> the argument.
\<close>

definition getPartyConfig :: "jsval \<Rightarrow> politician list \<Rightarrow> js_error + party_config" where
  "getPartyConfig sigle pool =
     (case PARTY_COLORS_get sigle of
        Some cfg \<Rightarrow> Inr cfg
      | None \<Rightarrow>
          (let found = find (\<lambda>p. groupe_sigle p = sigle) pool;
               nm = (case found of
                       Some p \<Rightarrow> if truthy (groupe_nom p) then groupe_nom p else sigle
                     | None \<Rightarrow> sigle)
           in case autoColor sigle of
                Inl e \<Rightarrow> Inl e
              | Inr c \<Rightarrow> Inr \<lparr>name = nm, color = Str c\<rparr>))"

subsection \<open>The state\<close>

text \<open>
  The reveal panel \<^verbatim>\<open>answer-reveal\<close> when it is visible: the icon (and the class
  \<^verbatim>\<open>correct-reveal\<close> or \<^verbatim>\<open>wrong-reveal\<close>), and what was assigned to \<^verbatim>\<open>reveal-name\<close> and
  \<^verbatim>\<open>reveal-group\<close>.
\<close>

record reveal =
  revealIcon :: bool
  revealName :: jsval
  revealGroup :: jsstring

text \<open>
  The variables of the closure, under their names (\<open>total'\<close> is \<^verbatim>\<open>total\<close>); then
  \<open>localStorage\<close>, the item \<^verbatim>\<open>"polidle-best"\<close> (\<open>None\<close> when there is none); \<open>shown\<close>, the
  record whose photo \<^verbatim>\<open>els.photo\<close> was last told to load; \<open>answerReveal\<close>, the reveal panel
  (\<open>None\<close> when hidden); \<open>nextBtn_hidden\<close>; and \<open>rng\<close>, the results of the calls of
  \<^verbatim>\<open>Math.random()\<close> to come. The party buttons, the chamber badge and the score display
  only mirror these and are left out.
\<close>

record state =
  deputes :: "politician list"
  senateurs :: "politician list"
  pool :: "politician list"
  currentIndex :: nat
  score :: nat
  total' :: nat
  streak :: nat
  bestStreak :: jsnum
  mode :: jsstring
  answered :: bool
  parties :: "jsstring list"
  localStorage :: "jsstring option"
  shown :: "politician option"
  answerReveal :: "reveal option"
  nextBtn_hidden :: bool
  rng :: random

subsection \<open>\<^verbatim>\<open>nextPolitician\<close> and the photo's \<^verbatim>\<open>onerror\<close> handler\<close>

text \<open>
  After the wrap test \<open>currentIndex\<close> is below the length of the non-empty pool
  (\<open>nextPolitician_in_range\<close> below), so \<^verbatim>\<open>pool[currentIndex]\<close> is a record.
\<close>

definition nextPolitician :: "state \<Rightarrow> state" where
  "nextPolitician s =
     (if length (pool s) = 0 then s
      else
        let s1 = (if currentIndex s \<ge> length (pool s)
                  then (case shuffle (pool s) (rng s) of
                          (arr, r) \<Rightarrow> s\<lparr>pool := arr, currentIndex := 0, rng := r\<rparr>)
                  else s);
            pol = pool s1 ! currentIndex s1
        in s1\<lparr>answered := False, shown := Some pol, answerReveal := None,
               nextBtn_hidden := True\<rparr>)"

text \<open>\<^verbatim>\<open>arr.splice(i, 1)\<close>: the element at \<open>i\<close> goes; nothing goes when \<open>i\<close> is past the end.\<close>

definition splice1 :: "nat \<Rightarrow> 'a list \<Rightarrow> 'a list" where
  "splice1 i arr = take i arr @ drop (Suc i) arr"

text \<open>
  The handler \<^verbatim>\<open>nextPolitician\<close> installs on the photo. It reads \<open>currentIndex\<close> when the
  error event arrives, not when the photo was requested.
\<close>

definition photo_onerror :: "state \<Rightarrow> state" where
  "photo_onerror s =
     (let s1 = s\<lparr>pool := splice1 (currentIndex s) (pool s)\<rparr>
      in if length (pool s1) = 0 then s1
         else nextPolitician
                (if currentIndex s1 \<ge> length (pool s1) then s1\<lparr>currentIndex := 0\<rparr> else s1))"

subsection \<open>\<^verbatim>\<open>setMode\<close>\<close>

text \<open>
  \<^verbatim>\<open>[...new Set(xs)]\<close>: the values of \<open>xs\<close> in the order of their first occurrence.
\<close>

definition Set_values :: "'a list \<Rightarrow> 'a list" where
  "Set_values xs = foldl (\<lambda>acc x. if x \<in> set acc then acc else acc @ [x]) [] xs"

text \<open>
  \<^verbatim>\<open>.filter(Boolean).sort()\<close>: what is left are non-empty strings, and the default
  \<^verbatim>\<open>sort()\<close> orders strings by their code units.
\<close>

definition party_list :: "politician list \<Rightarrow> jsstring list" where
  "party_list arr = sort (map toString (filter truthy (Set_values (map groupe_sigle arr))))"

text \<open>
  The \<^verbatim>\<open>switch\<close> of \<^verbatim>\<open>setMode\<close>: a copy of one collection, or of both, one after the other,
  for every mode that is not \<^verbatim>\<open>"deputes"\<close> or \<^verbatim>\<open>"senateurs"\<close>.
\<close>

definition selected :: "jsstring \<Rightarrow> state \<Rightarrow> politician list" where
  "selected newMode s =
     (if newMode = js ''deputes'' then deputes s
      else if newMode = js ''senateurs'' then senateurs s
      else deputes s @ senateurs s)"

text \<open>
  The party list is computed from the pool before \<^verbatim>\<open>shuffle\<close> reorders it in place; then
  the counters are reset and \<^verbatim>\<open>nextPolitician\<close> is called.
\<close>

definition setMode :: "jsstring \<Rightarrow> state \<Rightarrow> state" where
  "setMode newMode s =
     (let pool0 = selected newMode s
      in case shuffle pool0 (rng s) of
           (arr, r) \<Rightarrow>
             nextPolitician
               (s\<lparr>mode := newMode, pool := arr, parties := party_list pool0, rng := r,
                  currentIndex := 0, score := 0, total' := 0, streak := 0\<rparr>))"

subsection \<open>\<^verbatim>\<open>handleGuess\<close>\<close>

text \<open>
  The handler can throw: reading \<^verbatim>\<open>pol.groupe_sigle\<close> when \<^verbatim>\<open>pool[currentIndex]\<close> is
  \<^verbatim>\<open>undefined\<close>, and \<^verbatim>\<open>autoColor\<close> inside \<^verbatim>\<open>getPartyConfig\<close>. What it assigned before stays
  assigned, so the result is the error, if any, and the state the handler leaves.
\<close>

definition handleGuess :: "jsstring \<Rightarrow> state \<Rightarrow> js_error option \<times> state" where
  "handleGuess guessedSigle s =
     (if answered s then (None, s)
      else
        let s1 = s\<lparr>answered := True, total' := total' s + 1\<rparr>
        in if currentIndex s1 < length (pool s1)
           then
             let pol = pool s1 ! currentIndex s1;
                 isCorrect = (Str guessedSigle = groupe_sigle pol);
                 s2 = (if isCorrect
                       then
                         let s' = s1\<lparr>score := score s1 + 1, streak := streak s1 + 1\<rparr>
                         in if js_gt (streak s') (bestStreak s')
                            then s'\<lparr>bestStreak := Num (int (streak s')),
                                    localStorage := Some (decimal (streak s'))\<rparr>
                            else s'
                       else s1\<lparr>streak := 0\<rparr>)
             in case getPartyConfig (groupe_sigle pol) (pool s2) of
                  Inl e \<Rightarrow> (Some e, s2)
                | Inr cfg \<Rightarrow>
                    (None,
                     s2\<lparr>answerReveal :=
                          Some \<lparr>revealIcon = isCorrect, revealName = nom_complet pol,
                                revealGroup = toString (name cfg) @ js '' ('' @
                                  toString (groupe_sigle pol) @ js '')''\<rparr>,
                        nextBtn_hidden := False,
                        currentIndex := currentIndex s2 + 1\<rparr>)
           else (Some TypeError, s1))"

subsection \<open>\<^verbatim>\<open>init\<close>\<close>

text \<open>
  What one \<^verbatim>\<open>fetch\<close> of a dataset comes to: it is rejected (no response, a status that is
  not ok, or a body that is not JSON), or it gives the array of records.
\<close>

datatype fetched = Rejected | Json "politician list"

text \<open>The variables as the script declares them, before \<^verbatim>\<open>init\<close> runs.\<close>

definition declared :: "jsstring option \<Rightarrow> random \<Rightarrow> state" where
  "declared item r =
     \<lparr>deputes = [], senateurs = [], pool = [], currentIndex = 0, score = 0, total' = 0,
      streak = 0, bestStreak = Num 0, mode = js ''both'', answered = False, parties = [],
      localStorage = item, shown = None, answerReveal = None, nextBtn_hidden = True,
      rng = r\<rparr>"

text \<open>
  \<^verbatim>\<open>localStorage.getItem("polidle-best") || "0"\<close>, then \<^verbatim>\<open>parseInt(..., 10)\<close>.
\<close>

definition read_best :: "jsstring option \<Rightarrow> jsnum" where
  "read_best item =
     parseInt10 (case item of None \<Rightarrow> js ''0'' | Some v \<Rightarrow> if v = [] then js ''0'' else v)"

text \<open>
  \<open>load\<close> is the first part of \<^verbatim>\<open>init\<close>: \<open>dep\<close> and \<open>sen\<close> are the two fetches of
  \<^verbatim>\<open>Promise.all\<close>, \<open>dep2\<close> and \<open>sen2\<close> the fetches of the \<^verbatim>\<open>catch\<close> block, which assigns
  what it gets as it is.
\<close>

fun load :: "fetched \<Rightarrow> fetched \<Rightarrow> fetched \<Rightarrow> fetched \<Rightarrow> politician list \<times> politician list" where
  "load (Json depRes) (Json senRes) dep2 sen2 =
     (filter (\<lambda>p. truthy (photo p)) depRes, filter (\<lambda>p. truthy (photo p)) senRes)"
| "load dep sen dep2 sen2 =
     ((case dep2 of Json arr \<Rightarrow> arr | Rejected \<Rightarrow> []),
      (case sen2 of Json arr \<Rightarrow> arr | Rejected \<Rightarrow> []))"

text \<open>
  \<^verbatim>\<open>init\<close>: \<open>None\<close> is the error screen, after which no handler is installed.
\<close>

definition init :: "fetched \<Rightarrow> fetched \<Rightarrow> fetched \<Rightarrow> fetched \<Rightarrow> state \<Rightarrow> state option" where
  "init dep sen dep2 sen2 s =
     (case load dep sen dep2 sen2 of
        (d, n) \<Rightarrow>
          if length d = 0 \<and> length n = 0 then None
          else Some (setMode (js ''both'')
                       (s\<lparr>deputes := d, senateurs := n,
                          bestStreak := read_best (localStorage s)\<rparr>)))"

subsection \<open>\<^verbatim>\<open>handleKeydown\<close>\<close>

text \<open>
  \<^verbatim>\<open>e.key >= "1" && e.key <= "9"\<close> compares strings; a key in that range starts with a
  digit from 1 to 9, so \<^verbatim>\<open>parseInt\<close> gives a number.
\<close>

definition handleKeydown :: "jsstring \<Rightarrow> state \<Rightarrow> js_error option \<times> state" where
  "handleKeydown key s =
     (if answered s \<and> (key = js ''Enter'' \<or> key = js '' '') then (None, nextPolitician s)
      else if \<not> answered s \<and> js ''1'' \<le> key \<and> key \<le> js ''9''
      then (case parseInt10 key of
              Num k \<Rightarrow>
                let idx = k - 1
                in if idx < int (length (parties s))
                   then handleGuess (parties s ! nat idx) s
                   else (None, s)
            | NaN \<Rightarrow> (None, s))
      else (None, s))"

subsection \<open>Sequences of events\<close>

text \<open>
  What can happen after \<^verbatim>\<open>init\<close>: a click on a party button, on the next button or on a
  mode button, a key, and the error event of the photo.
\<close>

datatype event =
  GuessClick jsstring
| NextClick
| ModeClick jsstring
| Keydown jsstring
| PhotoError

fun step :: "state \<Rightarrow> event \<Rightarrow> state" where
  "step s (GuessClick sigle) = snd (handleGuess sigle s)"
| "step s NextClick = nextPolitician s"
| "step s (ModeClick m) = setMode m s"
| "step s (Keydown key) = snd (handleKeydown key s)"
| "step s PhotoError = photo_onerror s"

text \<open>The states after each event of a sequence, the starting state first.\<close>

fun trace :: "state \<Rightarrow> event list \<Rightarrow> state list" where
  "trace s [] = [s]"
| "trace s (e # es) = s # trace (step s e) es"

subsection \<open>A session used in the examples\<close>

text \<open>
  Three records: two deputies with a group, and a senator whose record has no group. The
  state \<open>started\<close> is what \<^verbatim>\<open>init\<close> leaves when both datasets load, the stored best
  streak is \<^verbatim>\<open>"5"\<close> and every call of \<^verbatim>\<open>Math.random()\<close> gives 0 (\<open>init_started\<close> below).
\<close>

definition pol_a :: politician where
  "pol_a = \<lparr>nom_complet = Str (js ''Alice A''), type = Str (js ''depute''),
            groupe_sigle = Str (js ''SOC''), groupe_nom = Str (js ''Socialistes''),
            photo = Str (js ''photos/a.jpg'')\<rparr>"

definition pol_b :: politician where
  "pol_b = \<lparr>nom_complet = Str (js ''Bruno B''), type = Str (js ''depute''),
            groupe_sigle = Str (js ''LR''), groupe_nom = Str (js ''Les Republicains''),
            photo = Str (js ''photos/b.jpg'')\<rparr>"

definition pol_c :: politician where
  "pol_c = \<lparr>nom_complet = Str (js ''Chloe C''), type = Str (js ''senateur''),
            groupe_sigle = Undefined, groupe_nom = Undefined,
            photo = Str (js ''photos/c.jpg'')\<rparr>"

definition started :: state where
  "started =
     \<lparr>deputes = [pol_a, pol_b], senateurs = [pol_c], pool = [pol_b, pol_c, pol_a],
      currentIndex = 0, score = 0, total' = 0, streak = 0, bestStreak = Num 5,
      mode = js ''both'', answered = False, parties = [js ''LR'', js ''SOC''],
      localStorage = Some (js ''5''), shown = Some pol_b, answerReveal = None,
      nextBtn_hidden = True, rng = zeros\<rparr>"

text \<open>A record of the group \<open>code\<close>, for the scenarios that only speak of group codes.\<close>

definition with_code :: "string \<Rightarrow> politician" where
  "with_code code = pol_a\<lparr>groupe_sigle := Str (js code)\<rparr>"

definition scenario :: state where
  "scenario = started\<lparr>deputes := [with_code ''RN'', with_code ''EPR'', with_code ''RN''],
                      senateurs := []\<rparr>"

subsection \<open>Invariants of the pool\<close>

text \<open>
  The invariant the specification states: every record of the pool has a non-empty photo
  and a non-empty group code.
\<close>

definition pool_invariant :: "state \<Rightarrow> bool" where
  "pool_invariant s = list_all (\<lambda>p. truthy (photo p) \<and> truthy (groupe_sigle p)) (pool s)"

text \<open>
  What the handlers keep: every record of the two collections and of the pool has a
  non-empty photo, and no party of the party list is the empty string.
\<close>

definition with_photos :: "state \<Rightarrow> bool" where
  "with_photos s =
     (list_all (\<lambda>p. truthy (photo p)) (deputes s @ senateurs s @ pool s) \<and>
      list_all (\<lambda>c. c \<noteq> []) (parties s))"

subsection \<open>Comparing best streaks\<close>

text \<open>\<^verbatim>\<open>x < y\<close> on numbers: false when either is \<^verbatim>\<open>NaN\<close>.\<close>

fun js_lt :: "jsnum \<Rightarrow> jsnum \<Rightarrow> bool" where
  "js_lt (Num a) (Num b) = (a < b)"
| "js_lt _ _ = False"

text \<open>\<open>grown x y\<close>: \<open>y\<close> is \<open>x\<close>, or both are integers and \<open>y\<close> is the greater.\<close>

definition grown :: "jsnum \<Rightarrow> jsnum \<Rightarrow> bool" where
  "grown x y = (x = y \<or> (\<exists>a b. x = Num a \<and> y = Num b \<and> a < b))"

text \<open>The example session on a browser that has stored no best streak yet.\<close>

definition fresh :: state where
  "fresh = started\<lparr>bestStreak := Num 0, localStorage := None\<rparr>"

text \<open>
  The example session after a correct guess on its first record, and after the click on
  the next button that follows (\<open>guess_LR_started\<close> and \<open>next_guessed\<close> below).
\<close>

definition guessed :: state where
  "guessed = started\<lparr>answered := True, total' := 1, score := 1, streak := 1,
        answerReveal := Some \<lparr>revealIcon = True, revealName = Str (js ''Bruno B''),
          revealGroup = js ''Les R'' @ [e_acute] @ js ''publicains (LR)''\<rparr>,
        nextBtn_hidden := False, currentIndex := 1\<rparr>"

definition on_c :: state where
  "on_c = guessed\<lparr>answered := False, shown := Some pol_c, answerReveal := None,
            nextBtn_hidden := True\<rparr>"

text \<open>The example session with the cursor on its third record, of the group SOC.\<close>

definition on_soc :: state where
  "on_soc = started\<lparr>currentIndex := 2, shown := Some pol_a\<rparr>"

subsection \<open>The record on display\<close>

text \<open>
  While the current record is unanswered and the pool is not empty, the photo on display
  is that of \<^verbatim>\<open>pool[currentIndex]\<close>.
\<close>

definition on_display :: "state \<Rightarrow> bool" where
  "on_display s =
     (answered s \<or> pool s = [] \<or>
      (currentIndex s < length (pool s) \<and> shown s = Some (pool s ! currentIndex s)))"

fun is_mode :: "event \<Rightarrow> bool" where
  "is_mode (ModeClick m) = True"
| "is_mode e = False"

section \<open>Properties\<close>

subsection \<open>The example session\<close>

lemma load_started:
  "load (Json [pol_a, pol_b]) (Json [pol_c]) Rejected Rejected = ([pol_a, pol_b], [pol_c])"
  by (simp add: pol_a_def pol_b_def pol_c_def js_def)

lemma shuffle_abc:
  "shuffle [pol_a, pol_b, pol_c] zeros = ([pol_b, pol_c, pol_a], zeros)"
  by (simp add: shuffle_def zeros_def draw_zero.rep_eq numeral_2_eq_2)

lemma parties_abc: "party_list [pol_a, pol_b, pol_c] = [js ''LR'', js ''SOC'']"
  by (simp add: party_list_def Set_values_def pol_a_def pol_b_def pol_c_def js_def)

lemma read_5: "read_best (Some (js ''5'')) = Num 5"
  by (simp add: read_best_def parseInt10_def js_def StrWhiteSpaceChar_def is_digit_def
      digits_value_def)

lemma both_mode: "js ''both'' \<noteq> js ''deputes''" "js ''both'' \<noteq> js ''senateurs''"
  by (simp_all add: js_def)

lemma init_started:
  "init (Json [pol_a, pol_b]) (Json [pol_c]) Rejected Rejected
     (declared (Some (js ''5'')) zeros) = Some started"
  unfolding init_def load_started
  by (simp add: setMode_def selected_def declared_def both_mode shuffle_abc parties_abc read_5
      nextPolitician_def started_def)

subsection \<open>\<^verbatim>\<open>shuffle\<close> permutes\<close>

text \<open>The index \<^verbatim>\<open>Math.floor(Math.random() * (i + 1))\<close> is at most \<open>i\<close>.\<close>

lemma draw_index: "nat \<lfloor>Rep_draw d * real (Suc i)\<rfloor> \<le> i"
proof -
  have d: "0 \<le> Rep_draw d" "Rep_draw d < 1"
    using Rep_draw [of d] by auto
  have "Rep_draw d * real (Suc i) < real (Suc i)"
    using d by (simp add: mult_less_cancel_right2 del: of_nat_Suc)
  then have "\<lfloor>Rep_draw d * real (Suc i)\<rfloor> < int (Suc i)"
    by (simp add: floor_less_iff del: of_nat_Suc)
  then show ?thesis by linarith
qed

lemma shuffle_loop_props:
  "k < length arr \<Longrightarrow>
   mset (fst (shuffle_loop k arr r)) = mset arr \<and>
   length (fst (shuffle_loop k arr r)) = length arr"
proof (induction k arr r rule: shuffle_loop.induct)
  case (1 arr rng)
  then show ?case by simp
next
  case (2 k arr rng)
  let ?j = "nat \<lfloor>Rep_draw (rng 0) * real (Suc k + 1)\<rfloor>"
  have j: "?j \<le> Suc k"
    using draw_index [of "rng 0" "Suc k"] by simp
  have len: "length (arr[Suc k := arr ! ?j, ?j := arr ! Suc k]) = length arr"
    by simp
  have ms: "mset (arr[Suc k := arr ! ?j, ?j := arr ! Suc k]) = mset arr"
    using "2.prems" j by (simp add: mset_swap)
  have "k < length (arr[Suc k := arr ! ?j, ?j := arr ! Suc k])"
    using "2.prems" by simp
  from "2.IH" [OF refl refl this] ms len show ?case
    by (simp add: Let_def)
qed

lemma shuffle_mset: "mset (fst (shuffle arr r)) = mset arr"
proof (cases arr)
  case Nil
  then show ?thesis by (simp add: shuffle_def)
next
  case (Cons a as)
  then have "length arr - 1 < length arr" by simp
  then show ?thesis
    unfolding shuffle_def by (rule shuffle_loop_props [THEN conjunct1])
qed

lemma shuffle_length: "length (fst (shuffle arr r)) = length arr"
  using shuffle_mset [of arr r] by (metis size_mset)

lemma nextPolitician_pool: "mset (pool (nextPolitician s)) = mset (pool s)"
  using shuffle_mset [of "pool s" "rng s"]
  by (auto simp: nextPolitician_def Let_def split: prod.splits)

text \<open>
  C10. \<^verbatim>\<open>shuffle\<close> permutes its array: for every array and every sequence of random
  numbers, the array after the call holds the same records with the same multiplicities.
  Hence \<^verbatim>\<open>nextPolitician\<close>, which reshuffles when the cursor has passed the end of the
  pool, never adds, drops or duplicates a record.
\<close>

theorem shuffle_permutes:
  "mset (fst (shuffle arr r)) = mset arr \<and> mset (pool (nextPolitician s)) = mset (pool s)"
  by (simp add: shuffle_mset nextPolitician_pool)

theorem shuffle_permutes_witness:
  "fst (shuffle [pol_a, pol_b, pol_c] zeros) = [pol_b, pol_c, pol_a] \<and>
   mset [pol_b, pol_c, pol_a] = mset [pol_a, pol_b, pol_c] \<and>
   mset (pool (nextPolitician (started\<lparr>currentIndex := 3\<rparr>))) = mset [pol_b, pol_c, pol_a]"
  using shuffle_permutes [of "[pol_a, pol_b, pol_c]" zeros "started\<lparr>currentIndex := 3\<rparr>"]
  by (simp add: shuffle_abc started_def)

subsection \<open>A second guess is ignored\<close>

text \<open>
  C4. When \<open>answered\<close> is true, \<^verbatim>\<open>handleGuess\<close> with any group code returns at once: it
  throws nothing and the whole state (score, total, streak, best streak and everything
  else) is what it was.
\<close>

theorem guess_when_answered: "answered s \<Longrightarrow> handleGuess guessedSigle s = (None, s)"
  by (simp add: handleGuess_def)

theorem guess_when_answered_witness:
  "answered (snd (handleGuess (js ''LR'') started)) \<and>
   handleGuess (js ''SOC'') (snd (handleGuess (js ''LR'') started)) =
     (None, snd (handleGuess (js ''LR'') started))"
proof -
  have a: "answered (snd (handleGuess (js ''LR'') started))"
    by (simp add: handleGuess_def started_def pol_b_def getPartyConfig_def Let_def
        split: option.splits sum.splits)
  from a guess_when_answered [OF a, of "js ''SOC''"] show ?thesis by simp
qed

subsection \<open>Who moves the cursor\<close>

lemma getPartyConfig_Str: "\<exists>cfg. getPartyConfig (Str c) arr = Inr cfg"
  by (simp add: getPartyConfig_def Let_def split: option.splits)

lemma handleGuess_returns:
  assumes "\<not> answered s" "currentIndex s < length (pool s)"
    "groupe_sigle (pool s ! currentIndex s) = Str c"
  shows "fst (handleGuess g s) = None \<and>
         currentIndex (snd (handleGuess g s)) = currentIndex s + 1"
proof -
  obtain cfg where "getPartyConfig (Str c) (pool s) = Inr cfg"
    using getPartyConfig_Str by blast
  with assms show ?thesis
    by (simp add: handleGuess_def Let_def)
qed

lemma nextPolitician_cursor:
  "currentIndex (nextPolitician s) =
     (if pool s \<noteq> [] \<and> length (pool s) \<le> currentIndex s then 0 else currentIndex s)"
  by (simp add: nextPolitician_def Let_def split: prod.splits)

text \<open>
  C1 as the specification states it: \<^verbatim>\<open>handleGuess\<close> never changes \<open>currentIndex\<close>. It does:
  its last statement is \<^verbatim>\<open>currentIndex++\<close>. In the example session the cursor is 0 before
  the first guess and 1 after it.
\<close>

theorem guess_changes_cursor:
  "\<not> answered started \<and> currentIndex started = 0 \<and>
   currentIndex (snd (handleGuess (js ''SOC'') started)) = 1"
  by (simp add: handleGuess_def started_def pol_b_def getPartyConfig_def Let_def js_def
      split: option.splits sum.splits)

text \<open>
  C1, amended. It is \<^verbatim>\<open>handleGuess\<close> that advances the cursor: when \<open>answered\<close> is false
  and the cursor is on a record whose group code is a string, the call completes and
  leaves \<open>currentIndex\<close> one greater than before; when \<open>answered\<close> is true it leaves
  \<open>currentIndex\<close> as it is. \<^verbatim>\<open>nextPolitician\<close> never increases \<open>currentIndex\<close>: it leaves it, or
  sets it to 0 when it has reached the length of a non-empty pool.
\<close>

theorem cursor_after_guess:
  "(answered s \<longrightarrow> currentIndex (snd (handleGuess g s)) = currentIndex s) \<and>
   (\<not> answered s \<and> currentIndex s < length (pool s) \<and>
    groupe_sigle (pool s ! currentIndex s) = Str c \<longrightarrow>
      fst (handleGuess g s) = None \<and>
      currentIndex (snd (handleGuess g s)) = currentIndex s + 1) \<and>
   currentIndex (nextPolitician s) =
     (if pool s \<noteq> [] \<and> length (pool s) \<le> currentIndex s then 0 else currentIndex s)"
  using handleGuess_returns [of s c g] nextPolitician_cursor [of s]
  by (simp add: handleGuess_def)

theorem cursor_after_guess_witness:
  "\<not> answered started \<and> currentIndex started < length (pool started) \<and>
   groupe_sigle (pool started ! currentIndex started) = Str (js ''LR'') \<and>
   fst (handleGuess (js ''SOC'') started) = None \<and>
   currentIndex (snd (handleGuess (js ''SOC'') started)) = currentIndex started + 1 \<and>
   currentIndex (nextPolitician started) = currentIndex started"
proof -
  have h: "\<not> answered started \<and> currentIndex started < length (pool started) \<and>
      groupe_sigle (pool started ! currentIndex started) = Str (js ''LR'')"
    by (simp add: started_def pol_b_def)
  have n: "pool started \<noteq> [] \<and> \<not> length (pool started) \<le> currentIndex started"
    by (simp add: started_def)
  from h n cursor_after_guess [of started "js ''SOC''" "js ''LR''"] show ?thesis
    by simp
qed

subsection \<open>\<^verbatim>\<open>setMode\<close>\<close>

lemma Set_values_acc:
  "set (foldl (\<lambda>acc x. if x \<in> set acc then acc else acc @ [x]) acc xs) = set acc \<union> set xs \<and>
   (distinct acc \<longrightarrow>
      distinct (foldl (\<lambda>acc x. if x \<in> set acc then acc else acc @ [x]) acc xs))"
  by (induction xs arbitrary: acc) auto

lemma set_Set_values: "set (Set_values xs) = set xs"
  using Set_values_acc [of "[]" xs] by (simp add: Set_values_def)

lemma distinct_Set_values: "distinct (Set_values xs)"
  using Set_values_acc [of "[]" xs] by (simp add: Set_values_def)

lemma toString_inj: "truthy v \<Longrightarrow> truthy w \<Longrightarrow> toString v = toString w \<Longrightarrow> v = w"
  by (cases v; cases w) simp_all

lemma sorted_party_list: "sorted (party_list arr)"
  by (simp add: party_list_def)

lemma distinct_party_list: "distinct (party_list arr)"
proof -
  have "distinct (map toString (filter truthy (Set_values (map groupe_sigle arr))))"
    by (rule iffD2 [OF distinct_map]) (auto simp: distinct_Set_values inj_on_def toString_inj)
  then show ?thesis by (simp add: party_list_def)
qed

lemma set_party_list:
  "set (party_list arr) = {c. c \<noteq> [] \<and> (\<exists>p \<in> set arr. groupe_sigle p = Str c)}"
proof -
  have "toString ` {v \<in> groupe_sigle ` set arr. truthy v} =
        {c. c \<noteq> [] \<and> (\<exists>p \<in> set arr. groupe_sigle p = Str c)}" (is "?L = ?R")
  proof
    show "?L \<subseteq> ?R"
    proof
      fix c assume "c \<in> ?L"
      then obtain p where p: "p \<in> set arr" "truthy (groupe_sigle p)"
          "c = toString (groupe_sigle p)"
        by auto
      then show "c \<in> ?R" by (cases "groupe_sigle p") auto
    qed
    show "?R \<subseteq> ?L"
    proof
      fix c assume "c \<in> ?R"
      then obtain p where p: "p \<in> set arr" "groupe_sigle p = Str c" "c \<noteq> []" by auto
      then have "Str c \<in> {v \<in> groupe_sigle ` set arr. truthy v}" by force
      then have "toString (Str c) \<in> ?L" by (rule imageI)
      then show "c \<in> ?L" by simp
    qed
  qed
  then show ?thesis by (simp add: party_list_def set_Set_values)
qed

lemma nextPolitician_keeps:
  "score (nextPolitician s) = score s \<and> total' (nextPolitician s) = total' s \<and>
   streak (nextPolitician s) = streak s \<and> bestStreak (nextPolitician s) = bestStreak s \<and>
   parties (nextPolitician s) = parties s \<and> deputes (nextPolitician s) = deputes s \<and>
   senateurs (nextPolitician s) = senateurs s \<and>
   localStorage (nextPolitician s) = localStorage s \<and> mode (nextPolitician s) = mode s"
  by (simp add: nextPolitician_def Let_def split: prod.splits)

lemma nextPolitician_pool_eq:
  "currentIndex s < length (pool s) \<or> pool s = [] \<Longrightarrow> pool (nextPolitician s) = pool s"
  by (auto simp: nextPolitician_def Let_def split: prod.splits)

lemma setMode_fields:
  "pool (setMode m s) = fst (shuffle (selected m s) (rng s)) \<and>
   parties (setMode m s) = party_list (selected m s) \<and>
   score (setMode m s) = 0 \<and> total' (setMode m s) = 0 \<and> streak (setMode m s) = 0 \<and>
   bestStreak (setMode m s) = bestStreak s \<and> deputes (setMode m s) = deputes s \<and>
   senateurs (setMode m s) = senateurs s \<and> localStorage (setMode m s) = localStorage s \<and>
   mode (setMode m s) = m"
proof -
  obtain arr r where sh: "shuffle (selected m s) (rng s) = (arr, r)"
    by (cases "shuffle (selected m s) (rng s)")
  let ?t = "s\<lparr>mode := m, pool := arr, parties := party_list (selected m s), rng := r,
               currentIndex := 0, score := 0, total' := 0, streak := 0\<rparr>"
  have sm: "setMode m s = nextPolitician ?t"
    using sh by (simp add: setMode_def Let_def)
  have "currentIndex ?t < length (pool ?t) \<or> pool ?t = []" by auto
  then have "pool (nextPolitician ?t) = pool ?t" by (rule nextPolitician_pool_eq)
  then show ?thesis
    using nextPolitician_keeps [of ?t] sh by (simp add: sm)
qed

lemma setMode_pool_mset: "mset (pool (setMode m s)) = mset (selected m s)"
  by (simp add: setMode_fields shuffle_mset)

lemma setMode_parties_set:
  "set (parties (setMode m s)) =
     {c. c \<noteq> [] \<and> (\<exists>p \<in> set (pool (setMode m s)). groupe_sigle p = Str c)}"
proof -
  have "set (pool (setMode m s)) = set (selected m s)"
    using setMode_pool_mset [of m s] by (rule mset_eq_setD)
  then show ?thesis by (simp add: setMode_fields set_party_list)
qed

lemma setMode_scenario:
  assumes "mset (map groupe_sigle (pool (setMode m s))) =
           mset [Str (js ''RN''), Str (js ''EPR''), Str (js ''RN'')]"
  shows "parties (setMode m s) = [js ''EPR'', js ''RN'']"
proof -
  have "set (map groupe_sigle (pool (setMode m s))) =
        set [Str (js ''RN''), Str (js ''EPR''), Str (js ''RN'')]"
    using assms by (rule mset_eq_setD)
  then have codes: "groupe_sigle ` set (pool (setMode m s)) = {Str (js ''RN''), Str (js ''EPR'')}"
    by auto
  have "set (parties (setMode m s)) =
        {c. c \<noteq> [] \<and> Str c \<in> groupe_sigle ` set (pool (setMode m s))}"
    unfolding setMode_parties_set by force
  also have "\<dots> = {js ''EPR'', js ''RN''}"
    unfolding codes by (auto simp: js_def)
  finally have "set (parties (setMode m s)) = set [js ''EPR'', js ''RN'']" by simp
  moreover have "sorted (parties (setMode m s))" "distinct (parties (setMode m s))"
    by (simp_all add: setMode_fields sorted_party_list distinct_party_list)
  moreover have "sorted [js ''EPR'', js ''RN'']" "distinct [js ''EPR'', js ''RN'']"
    by (simp_all add: js_def)
  ultimately show ?thesis by (metis sorted_distinct_set_unique)
qed

text \<open>
  C5. \<^verbatim>\<open>setMode\<close>: the new pool holds exactly the records of the selected collection
  (\<open>deputes\<close>, \<open>senateurs\<close>, or both for any other mode), in some order; \<open>parties\<close> is the sorted
  list, without duplicates, of the non-empty group codes of the records of the new pool;
  \<open>score\<close>, \<open>total\<close> and \<open>streak\<close> are 0 and \<open>bestStreak\<close> is what it was. A pool with the
  codes RN, EPR, RN gives the parties EPR, RN.
\<close>

theorem setMode_rebuilds:
  "mset (pool (setMode (js ''deputes'') s)) = mset (deputes s) \<and>
   mset (pool (setMode (js ''senateurs'') s)) = mset (senateurs s) \<and>
   (m \<noteq> js ''deputes'' \<and> m \<noteq> js ''senateurs'' \<longrightarrow>
      mset (pool (setMode m s)) = mset (deputes s @ senateurs s)) \<and>
   sorted (parties (setMode m s)) \<and> distinct (parties (setMode m s)) \<and>
   set (parties (setMode m s)) =
     {c. c \<noteq> [] \<and> (\<exists>p \<in> set (pool (setMode m s)). groupe_sigle p = Str c)} \<and>
   score (setMode m s) = 0 \<and> total' (setMode m s) = 0 \<and> streak (setMode m s) = 0 \<and>
   bestStreak (setMode m s) = bestStreak s \<and>
   (mset (map groupe_sigle (pool (setMode m s))) =
      mset [Str (js ''RN''), Str (js ''EPR''), Str (js ''RN'')] \<longrightarrow>
    parties (setMode m s) = [js ''EPR'', js ''RN''])"
proof -
  have "js ''senateurs'' \<noteq> js ''deputes''" by (simp add: js_def)
  then have "mset (pool (setMode (js ''deputes'') s)) = mset (deputes s)"
    "mset (pool (setMode (js ''senateurs'') s)) = mset (senateurs s)"
    "m \<noteq> js ''deputes'' \<and> m \<noteq> js ''senateurs'' \<longrightarrow>
       mset (pool (setMode m s)) = mset (deputes s @ senateurs s)"
    by (simp_all add: setMode_pool_mset selected_def)
  moreover have "sorted (parties (setMode m s))" "distinct (parties (setMode m s))"
    by (simp_all add: setMode_fields sorted_party_list distinct_party_list)
  moreover note setMode_parties_set [of m s]
  moreover have "score (setMode m s) = 0" "total' (setMode m s) = 0" "streak (setMode m s) = 0"
    "bestStreak (setMode m s) = bestStreak s"
    by (simp_all add: setMode_fields)
  moreover note setMode_scenario [of m s]
  ultimately show ?thesis by blast
qed

theorem setMode_rebuilds_witness:
  "js ''both'' \<noteq> js ''deputes'' \<and> js ''both'' \<noteq> js ''senateurs'' \<and>
   mset (map groupe_sigle (pool (setMode (js ''both'') scenario))) =
     mset [Str (js ''RN''), Str (js ''EPR''), Str (js ''RN'')] \<and>
   mset (pool (setMode (js ''both'') scenario)) =
     mset [with_code ''RN'', with_code ''EPR'', with_code ''RN''] \<and>
   parties (setMode (js ''both'') scenario) = [js ''EPR'', js ''RN''] \<and>
   score (setMode (js ''both'') scenario) = 0 \<and>
   bestStreak (setMode (js ''both'') scenario) = Num 5"
proof -
  have sel: "selected (js ''both'') scenario = [with_code ''RN'', with_code ''EPR'', with_code ''RN'']"
    by (simp add: selected_def both_mode scenario_def)
  have "image_mset groupe_sigle (mset (pool (setMode (js ''both'') scenario))) =
        image_mset groupe_sigle (mset (selected (js ''both'') scenario))"
    by (simp only: setMode_pool_mset)
  then have h: "mset (map groupe_sigle (pool (setMode (js ''both'') scenario))) =
      mset [Str (js ''RN''), Str (js ''EPR''), Str (js ''RN'')]"
    by (simp add: sel with_code_def)
  have d: "deputes scenario @ senateurs scenario =
      [with_code ''RN'', with_code ''EPR'', with_code ''RN'']" "bestStreak scenario = Num 5"
    by (simp_all add: scenario_def started_def)
  from h d both_mode setMode_rebuilds [of scenario "js ''both''"] show ?thesis
    by simp
qed

subsection \<open>What the pool holds\<close>

lemma handleGuess_keeps:
  "pool (snd (handleGuess g s)) = pool s \<and> deputes (snd (handleGuess g s)) = deputes s \<and>
   senateurs (snd (handleGuess g s)) = senateurs s \<and> parties (snd (handleGuess g s)) = parties s"
  by (simp add: handleGuess_def Let_def split: sum.splits)

lemma handleKeydown_cases:
  "snd (handleKeydown key s) = s \<or> snd (handleKeydown key s) = nextPolitician s \<or>
   (\<exists>g. snd (handleKeydown key s) = snd (handleGuess g s))"
  by (auto simp: handleKeydown_def Let_def split: jsnum.splits)

lemma set_splice1: "set (splice1 i arr) \<subseteq> set arr"
  by (auto simp: splice1_def dest: in_set_takeD in_set_dropD)

lemma with_photos_nextPolitician: "with_photos s \<Longrightarrow> with_photos (nextPolitician s)"
proof -
  assume a: "with_photos s"
  have "set (pool (nextPolitician s)) = set (pool s)"
    using nextPolitician_pool [of s] by (rule mset_eq_setD)
  with a show ?thesis
    by (simp add: with_photos_def list_all_iff nextPolitician_keeps)
qed

lemma with_photos_handleGuess: "with_photos s \<Longrightarrow> with_photos (snd (handleGuess g s))"
  by (simp add: with_photos_def handleGuess_keeps)

lemma with_photos_setMode: "with_photos s \<Longrightarrow> with_photos (setMode m s)"
proof -
  assume a: "with_photos s"
  have "set (pool (setMode m s)) = set (selected m s)"
    using setMode_pool_mset [of m s] by (rule mset_eq_setD)
  moreover have "set (selected m s) \<subseteq> set (deputes s) \<union> set (senateurs s)"
    by (auto simp: selected_def)
  moreover have "\<forall>c \<in> set (parties (setMode m s)). c \<noteq> []"
    by (simp add: setMode_parties_set)
  ultimately show ?thesis
    using a by (auto simp: with_photos_def list_all_iff setMode_fields)
qed

lemma with_photos_photo_onerror: "with_photos s \<Longrightarrow> with_photos (photo_onerror s)"
proof -
  assume a: "with_photos s"
  let ?s1 = "s\<lparr>pool := splice1 (currentIndex s) (pool s)\<rparr>"
  have s1: "with_photos ?s1"
    using a set_splice1 [of "currentIndex s" "pool s"]
    by (auto simp: with_photos_def list_all_iff)
  then have s2: "with_photos (?s1\<lparr>currentIndex := 0\<rparr>)"
    by (simp add: with_photos_def)
  show ?thesis
  proof (cases "length (pool ?s1) = 0")
    case True
    then have "photo_onerror s = ?s1" by (simp add: photo_onerror_def Let_def)
    with s1 show ?thesis by simp
  next
    case False
    then have "photo_onerror s =
        nextPolitician (if currentIndex ?s1 \<ge> length (pool ?s1) then ?s1\<lparr>currentIndex := 0\<rparr> else ?s1)"
      by (simp add: photo_onerror_def Let_def)
    with s1 s2 show ?thesis by (simp add: with_photos_nextPolitician)
  qed
qed

lemma with_photos_step: "with_photos s \<Longrightarrow> with_photos (step s e)"
proof (cases e)
  case (Keydown key)
  assume "with_photos s"
  then show ?thesis
    using handleKeydown_cases [of key s] Keydown
    by (auto simp: with_photos_nextPolitician with_photos_handleGuess)
qed (simp_all add: with_photos_handleGuess with_photos_nextPolitician with_photos_setMode
      with_photos_photo_onerror)

lemma with_photos_trace: "with_photos s \<Longrightarrow> t \<in> set (trace s evs) \<Longrightarrow> with_photos t"
  by (induction evs arbitrary: s) (auto dest: with_photos_step)

lemma with_photos_init:
  assumes "init (Json depRes) (Json senRes) dep2 sen2 s0 = Some s"
  shows "with_photos s"
proof -
  let ?d = "filter (\<lambda>p. truthy (photo p)) depRes" and ?n = "filter (\<lambda>p. truthy (photo p)) senRes"
  let ?t = "s0\<lparr>deputes := ?d, senateurs := ?n, bestStreak := read_best (localStorage s0)\<rparr>"
  have s: "s = setMode (js ''both'') ?t"
    using assms by (simp add: init_def split: if_splits)
  have "set (pool s) = set (selected (js ''both'') ?t)"
    unfolding s using setMode_pool_mset by (rule mset_eq_setD)
  moreover have "selected (js ''both'') ?t = ?d @ ?n"
    by (simp add: selected_def both_mode)
  moreover have "deputes s = ?d" "senateurs s = ?n"
    unfolding s by (simp_all add: setMode_fields)
  moreover have "\<forall>c \<in> set (parties s). c \<noteq> []"
    unfolding s by (simp add: setMode_parties_set)
  ultimately show ?thesis
    by (auto simp: with_photos_def list_all_iff)
qed

text \<open>
  C2 as the specification states it: every record of the pool has a non-empty photo and a
  non-empty group code. No handler looks at the group code of a record of the pool: the
  codes are filtered only on the way to the party list. The example session, which
  \<^verbatim>\<open>init\<close> reaches on its main path, has a record without a group in its pool.
\<close>

theorem pool_invariant_fails:
  "init (Json [pol_a, pol_b]) (Json [pol_c]) Rejected Rejected
     (declared (Some (js ''5'')) zeros) = Some started \<and>
   \<not> pool_invariant started"
proof (rule conjI)
  show "init (Json [pol_a, pol_b]) (Json [pol_c]) Rejected Rejected
     (declared (Some (js ''5'')) zeros) = Some started"
    by (rule init_started)
  show "\<not> pool_invariant started"
    by (simp add: pool_invariant_def started_def pol_c_def)
qed

text \<open>
  C2, amended. When both datasets load together (the path of \<^verbatim>\<open>init\<close> that filters them),
  then at every point of every sequence of events every record of the pool has a
  non-empty photo, and every party of the party list is a non-empty string. (Records with
  an empty or missing group code stay in the pool.)
\<close>

theorem pool_photos:
  "init (Json depRes) (Json senRes) dep2 sen2 s0 = Some s \<Longrightarrow> t \<in> set (trace s evs) \<Longrightarrow>
   (\<forall>p \<in> set (pool t). truthy (photo p)) \<and> (\<forall>c \<in> set (parties t). c \<noteq> [])"
  using with_photos_trace [OF with_photos_init, of depRes senRes dep2 sen2 s0 s t evs]
  by (simp add: with_photos_def list_all_iff)

theorem pool_photos_witness:
  "init (Json [pol_a, pol_b]) (Json [pol_c]) Rejected Rejected
     (declared (Some (js ''5'')) zeros) = Some started \<and>
   photo_onerror started \<in> set (trace started [PhotoError]) \<and>
   list_all (\<lambda>p. truthy (photo p)) (pool (photo_onerror started)) \<and>
   list_all (\<lambda>c. c \<noteq> []) (parties (photo_onerror started))"
proof -
  have t: "photo_onerror started \<in> set (trace started [PhotoError])"
    by simp
  from init_started t pool_photos [OF init_started t] show ?thesis
    by (simp only: list_all_iff simp_thms)
qed

subsection \<open>The best streak\<close>

lemma grown_refl: "grown x x"
  by (simp add: grown_def)

lemma grown_trans: "grown x y \<Longrightarrow> grown y z \<Longrightarrow> grown x z"
  by (auto simp: grown_def)

lemma grown_not_lt: "grown x y \<Longrightarrow> \<not> js_lt y x"
  by (cases x; cases y) (auto simp: grown_def)

lemma handleGuess_grown: "grown (bestStreak s) (bestStreak (snd (handleGuess g s)))"
  by (cases "bestStreak s") (simp_all add: handleGuess_def grown_def Let_def split: sum.splits)

lemma photo_onerror_keeps:
  "bestStreak (photo_onerror s) = bestStreak s \<and> streak (photo_onerror s) = streak s"
  by (simp add: photo_onerror_def Let_def nextPolitician_keeps)

lemma step_grown: "grown (bestStreak s) (bestStreak (step s e))"
proof (cases e)
  case (Keydown key)
  then show ?thesis
    using handleKeydown_cases [of key s]
    by (auto simp: nextPolitician_keeps handleGuess_grown grown_refl)
qed (simp_all add: handleGuess_grown nextPolitician_keeps setMode_fields photo_onerror_keeps grown_refl)

lemma trace_grown: "t \<in> set (trace s evs) \<Longrightarrow> grown (bestStreak s) (bestStreak t)"
proof (induction evs arbitrary: s)
  case Nil
  then show ?case by (simp add: grown_refl)
next
  case (Cons e es)
  then consider "t = s" | "t \<in> set (trace (step s e) es)" by auto
  then show ?case
  proof cases
    case 1
    then show ?thesis by (simp add: grown_refl)
  next
    case 2
    then have "grown (bestStreak (step s e)) (bestStreak t)" by (rule Cons.IH)
    with step_grown [of s e] show ?thesis by (rule grown_trans)
  qed
qed

lemma handleGuess_best:
  "bestStreak s = Num b \<Longrightarrow> int (streak s) \<le> b \<Longrightarrow>
   bestStreak (snd (handleGuess g s)) = Num (max b (int (streak (snd (handleGuess g s)))))"
  by (simp add: handleGuess_def Let_def split: sum.splits)

lemma step_best:
  assumes "bestStreak s = Num b" "int (streak s) \<le> b"
  shows "bestStreak (step s e) = Num (max b (int (streak (step s e))))"
proof (cases e)
  case (Keydown key)
  then show ?thesis
    using handleKeydown_cases [of key s] assms handleGuess_best [OF assms]
    by (auto simp: nextPolitician_keeps)
next
  case (GuessClick g)
  then show ?thesis using handleGuess_best [OF assms] by simp
qed (use assms in \<open>simp_all add: nextPolitician_keeps setMode_fields photo_onerror_keeps\<close>)

lemma trace_nonempty: "trace s evs \<noteq> []"
  by (cases evs) simp_all

lemma hd_trace: "s \<in> set (trace s evs)"
  by (cases evs) simp_all

lemma trace_best:
  "bestStreak s = Num b \<Longrightarrow> int (streak s) \<le> b \<Longrightarrow>
   bestStreak (last (trace s evs)) = Num (max b (int (Max (streak ` set (trace s evs)))))"
proof (induction evs arbitrary: s b)
  case Nil
  then show ?case by simp
next
  case (Cons e es)
  let ?s' = "step s e" and ?b' = "max b (int (streak (step s e)))"
  let ?T = "streak ` set (trace ?s' es)"
  have b': "bestStreak ?s' = Num ?b'" using Cons.prems by (rule step_best)
  have "int (streak ?s') \<le> ?b'" by simp
  with b' have IH: "bestStreak (last (trace ?s' es)) = Num (max ?b' (int (Max ?T)))"
    by (rule Cons.IH)
  have fin: "finite ?T" "?T \<noteq> {}" using trace_nonempty [of ?s' es] by auto
  have "streak ?s' \<in> ?T" using hd_trace [of ?s' es] by (rule imageI)
  then have le: "streak ?s' \<le> Max ?T" using fin by simp
  have "Max (streak ` set (trace s (e # es))) = max (streak s) (Max ?T)"
    using fin by simp
  moreover have "max ?b' (int (Max ?T)) = max b (int (max (streak s) (Max ?T)))"
    using le Cons.prems(2) by linarith
  ultimately show ?case
    using IH trace_nonempty [of ?s' es] by simp
qed

lemma guess_fresh:
  "bestStreak (snd (handleGuess (js ''LR'') fresh)) = Num 1 \<and>
   streak (snd (handleGuess (js ''LR'') fresh)) = 1"
  by (simp add: handleGuess_def fresh_def started_def pol_b_def Let_def split: sum.splits)

text \<open>
  C8 as the specification states it: at every point \<open>bestStreak\<close> equals the greatest
  \<open>streak\<close> seen so far in this lifetime. \<^verbatim>\<open>init\<close> reads \<open>bestStreak\<close> from \<^verbatim>\<open>localStorage\<close>,
  where an earlier visit left it: the example session starts with a best streak of 5
  and no streak yet.
\<close>

theorem best_not_max_streak:
  "init (Json [pol_a, pol_b]) (Json [pol_c]) Rejected Rejected
     (declared (Some (js ''5'')) zeros) = Some started \<and>
   bestStreak (last (trace started [])) = Num 5 \<and>
   Max (streak ` set (trace started [])) = 0"
proof (rule conjI)
  show "init (Json [pol_a, pol_b]) (Json [pol_c]) Rejected Rejected
     (declared (Some (js ''5'')) zeros) = Some started"
    by (rule init_started)
  show "bestStreak (last (trace started [])) = Num 5 \<and> Max (streak ` set (trace started [])) = 0"
    by (simp add: started_def)
qed

text \<open>
  C8, amended. Across any sequence of events (mode changes included) \<open>bestStreak\<close> never
  becomes less than it was; and when it starts as an integer \<open>b\<close> that the streak does not
  exceed (after \<^verbatim>\<open>init\<close>: the stored value, when that is a non-negative integer), then at
  every point it equals the greater of \<open>b\<close> and the greatest \<open>streak\<close> seen so far.
\<close>

theorem bestStreak_monotone_max:
  "(t \<in> set (trace s evs) \<longrightarrow> \<not> js_lt (bestStreak t) (bestStreak s)) \<and>
   (bestStreak s = Num b \<and> int (streak s) \<le> b \<longrightarrow>
      bestStreak (last (trace s evs)) = Num (max b (int (Max (streak ` set (trace s evs))))))"
  using trace_grown [of t s evs] grown_not_lt [of "bestStreak s" "bestStreak t"]
    trace_best [of s b evs]
  by blast

theorem bestStreak_monotone_max_witness:
  "snd (handleGuess (js ''LR'') fresh) \<in> set (trace fresh [GuessClick (js ''LR'')]) \<and>
   \<not> js_lt (bestStreak (snd (handleGuess (js ''LR'') fresh))) (bestStreak fresh) \<and>
   bestStreak fresh = Num 0 \<and> int (streak fresh) \<le> 0 \<and>
   bestStreak (last (trace fresh [GuessClick (js ''LR'')])) =
     Num (max 0 (int (Max (streak ` set (trace fresh [GuessClick (js ''LR'')]))))) \<and>
   bestStreak (last (trace fresh [GuessClick (js ''LR'')])) = Num 1"
proof -
  have t: "snd (handleGuess (js ''LR'') fresh) \<in> set (trace fresh [GuessClick (js ''LR'')])"
    by simp
  have h: "bestStreak fresh = Num 0 \<and> int (streak fresh) \<le> 0"
    by (simp add: fresh_def started_def)
  have v: "bestStreak (last (trace fresh [GuessClick (js ''LR'')])) = Num 1"
    by (simp add: guess_fresh)
  from t h v
    bestStreak_monotone_max [of "snd (handleGuess (js ''LR'') fresh)" fresh
      "[GuessClick (js ''LR'')]" 0]
  show ?thesis by blast
qed

subsection \<open>A guess on the current record\<close>

lemma nextPolitician_in_range:
  "pool s \<noteq> [] \<Longrightarrow>
   currentIndex (nextPolitician s) < length (pool (nextPolitician s)) \<and>
   shown (nextPolitician s) = Some (pool (nextPolitician s) ! currentIndex (nextPolitician s)) \<and>
   \<not> answered (nextPolitician s)"
  using shuffle_length [of "pool s" "rng s"]
  by (auto simp: nextPolitician_def Let_def split: prod.splits)

text \<open>
  A key between \<^verbatim>\<open>"1"\<close> and \<^verbatim>\<open>"9"\<close> gives an index that is not negative, so
  \<^verbatim>\<open>handleKeydown\<close> never reads \<^verbatim>\<open>parties\<close> below 0.
\<close>

lemma keydown_digit:
  assumes "js ''1'' \<le> key" "key \<le> js ''9''"
  shows "\<exists>k. parseInt10 key = Num k \<and> 1 \<le> k"
proof -
  obtain c r where cr: "key = c # r"
    using assms(1) by (cases key) (auto simp: js_def)
  have c: "49 \<le> c" "c \<le> 57"
    using assms cr by (auto simp: js_def)
  have grow: "\<And>a. 1 \<le> a \<Longrightarrow> list_all is_digit ds \<Longrightarrow>
      1 \<le> foldl (\<lambda>a c. a * 10 + (int c - 48)) a ds" for ds
    by (induction ds) (auto simp: is_digit_def)
  have "list_all is_digit (takeWhile is_digit r)"
    by (simp add: list_all_iff) (meson set_takeWhileD)
  then have "1 \<le> foldl (\<lambda>a c. a * 10 + (int c - 48)) (int c - 48) (takeWhile is_digit r)"
    using c by (intro grow) auto
  then show ?thesis
    using c cr by (simp add: parseInt10_def Let_def StrWhiteSpaceChar_def is_digit_def digits_value_def)
qed

lemma cfg_SOC:
  "getPartyConfig (Str (js ''SOC'')) arr =
     Inr \<lparr>name = Str (js ''Socialistes et apparent'' @ [e_acute] @ js ''s''),
          color = Str (js ''#FF6B81'')\<rparr>"
  by (simp add: getPartyConfig_def PARTY_COLORS_get_def PARTY_COLORS_def entry_def js_def)

lemma guess_LR_started: "handleGuess (js ''LR'') started = (None, guessed)"
  by (simp add: handleGuess_def started_def guessed_def pol_b_def getPartyConfig_def
      PARTY_COLORS_get_def PARTY_COLORS_def entry_def js_def Let_def)

lemma next_guessed: "nextPolitician guessed = on_c"
  by (simp add: nextPolitician_def Let_def guessed_def started_def on_c_def)

lemma guess_on_c:
  "handleGuess (js ''SOC'') on_c =
     (Some TypeError, on_c\<lparr>answered := True, total' := 2, streak := 0\<rparr>)"
  by (simp add: handleGuess_def on_c_def guessed_def started_def pol_c_def getPartyConfig_def
      PARTY_COLORS_get_def PARTY_COLORS_def Object_prototype_def entry_def builtin_def js_def
      Let_def)

text \<open>
  On a record whose group code is a string \<open>c\<close>, a guess while \<open>answered\<close> is false does
  what the specification says: the call completes, \<open>answered\<close> becomes true and \<open>total\<close>
  grows by 1. If the guess is \<open>c\<close>, \<open>score\<close> and \<open>streak\<close> grow by 1, and \<open>bestStreak\<close> becomes
  the new streak, which is written to \<^verbatim>\<open>localStorage\<close>, exactly when the new streak exceeds
  it. Otherwise \<open>streak\<close> becomes 0 and \<open>score\<close>, \<open>bestStreak\<close> and \<^verbatim>\<open>localStorage\<close> stay. The
  reveal shows whether the guess was right, the name of the record, and the party name
  and code of the record, not of the guess.
\<close>

theorem guess_postconditions:
  assumes "\<not> answered s" "currentIndex s < length (pool s)"
    "groupe_sigle (pool s ! currentIndex s) = Str c"
  shows "fst (handleGuess g s) = None \<and>
    answered (snd (handleGuess g s)) \<and>
    total' (snd (handleGuess g s)) = total' s + 1 \<and>
    pool (snd (handleGuess g s)) = pool s \<and>
    (g = c \<longrightarrow>
       score (snd (handleGuess g s)) = score s + 1 \<and>
       streak (snd (handleGuess g s)) = streak s + 1 \<and>
       (js_gt (streak s + 1) (bestStreak s) \<longrightarrow>
          bestStreak (snd (handleGuess g s)) = Num (int (streak s + 1)) \<and>
          localStorage (snd (handleGuess g s)) = Some (decimal (streak s + 1))) \<and>
       (\<not> js_gt (streak s + 1) (bestStreak s) \<longrightarrow>
          bestStreak (snd (handleGuess g s)) = bestStreak s \<and>
          localStorage (snd (handleGuess g s)) = localStorage s)) \<and>
    (g \<noteq> c \<longrightarrow>
       score (snd (handleGuess g s)) = score s \<and>
       streak (snd (handleGuess g s)) = 0 \<and>
       bestStreak (snd (handleGuess g s)) = bestStreak s \<and>
       localStorage (snd (handleGuess g s)) = localStorage s) \<and>
    (\<exists>cfg. getPartyConfig (Str c) (pool s) = Inr cfg \<and>
       answerReveal (snd (handleGuess g s)) =
         Some \<lparr>revealIcon = (g = c), revealName = nom_complet (pool s ! currentIndex s),
               revealGroup = toString (name cfg) @ js '' ('' @ c @ js '')''\<rparr>)"
proof -
  obtain cfg where cfg: "getPartyConfig (Str c) (pool s) = Inr cfg"
    using getPartyConfig_Str by blast
  show ?thesis
  proof (cases "g = c")
    case True
    with assms cfg show ?thesis
      by (simp add: handleGuess_def Let_def)
  next
    case False
    with assms cfg show ?thesis
      by (simp add: handleGuess_def Let_def)
  qed
qed

text \<open>
  For a record of the group SOC: the guess SOC scores, the guess LR resets the streak,
  and both reveals name the group of the record.
\<close>

theorem guess_postconditions_witness:
  "\<not> answered on_soc \<and> currentIndex on_soc < length (pool on_soc) \<and>
   groupe_sigle (pool on_soc ! currentIndex on_soc) = Str (js ''SOC'') \<and>
   score (snd (handleGuess (js ''SOC'') on_soc)) = score on_soc + 1 \<and>
   streak (snd (handleGuess (js ''SOC'') on_soc)) = streak on_soc + 1 \<and>
   answerReveal (snd (handleGuess (js ''SOC'') on_soc)) =
     Some \<lparr>revealIcon = True, revealName = Str (js ''Alice A''),
           revealGroup = js ''Socialistes et apparent'' @ [e_acute] @ js ''s (SOC)''\<rparr> \<and>
   score (snd (handleGuess (js ''LR'') on_soc)) = score on_soc \<and>
   streak (snd (handleGuess (js ''LR'') on_soc)) = 0 \<and>
   answerReveal (snd (handleGuess (js ''LR'') on_soc)) =
     Some \<lparr>revealIcon = False, revealName = Str (js ''Alice A''),
           revealGroup = js ''Socialistes et apparent'' @ [e_acute] @ js ''s (SOC)''\<rparr>"
proof -
  have h: "\<not> answered on_soc" "currentIndex on_soc < length (pool on_soc)"
    "groupe_sigle (pool on_soc ! currentIndex on_soc) = Str (js ''SOC'')"
    by (simp_all add: on_soc_def started_def pol_a_def)
  have n: "nom_complet (pool on_soc ! currentIndex on_soc) = Str (js ''Alice A'')"
    by (simp add: on_soc_def started_def pol_a_def)
  have d: "js ''LR'' \<noteq> js ''SOC''"
    by (simp add: js_def)
  have j: "js ''s'' @ js '' ('' @ js ''SOC'' @ js '')'' = js ''s (SOC)''"
    by (simp add: js_def)
  from guess_postconditions [OF h, of "js ''SOC''"] guess_postconditions [OF h, of "js ''LR''"]
    h n d j
  show ?thesis
    by (simp add: cfg_SOC)
qed

text \<open>
  C3 at a record without a group code. In the example session the second record of the
  pool has no \<^verbatim>\<open>groupe_sigle\<close>. After a guess on the first record and a click on the next
  button it is the current record and \<open>answered\<close> is false. A guess then counts as wrong,
  and \<^verbatim>\<open>getPartyConfig(undefined)\<close> throws a TypeError in \<^verbatim>\<open>autoColor\<close> before the reveal is
  filled in: the reveal panel stays hidden and the cursor stays where it was.
\<close>

theorem guess_on_record_without_group:
  "pool (step (step started (GuessClick (js ''LR''))) NextClick) !
     currentIndex (step (step started (GuessClick (js ''LR''))) NextClick) = pol_c \<and>
   \<not> answered (step (step started (GuessClick (js ''LR''))) NextClick) \<and>
   fst (handleGuess (js ''SOC'') (step (step started (GuessClick (js ''LR''))) NextClick)) =
     Some TypeError \<and>
   answerReveal (snd (handleGuess (js ''SOC'')
     (step (step started (GuessClick (js ''LR''))) NextClick))) = None \<and>
   currentIndex (snd (handleGuess (js ''SOC'')
     (step (step started (GuessClick (js ''LR''))) NextClick))) = 1"
proof -
  have a: "step (step started (GuessClick (js ''LR''))) NextClick = on_c"
    by (simp add: guess_LR_started next_guessed)
  show ?thesis
    unfolding a guess_on_c by (simp add: on_c_def guessed_def started_def)
qed

subsection \<open>The error event of the photo\<close>

lemma on_display_nextPolitician: "on_display s \<Longrightarrow> on_display (nextPolitician s)"
proof (cases "pool s = []")
  case True
  assume "on_display s"
  with True show ?thesis by (simp add: nextPolitician_def)
next
  case False
  then show ?thesis
    using nextPolitician_in_range [of s] by (simp add: on_display_def)
qed

lemma nextPolitician_on_display: "currentIndex s = 0 \<Longrightarrow> on_display (nextPolitician s)"
proof (cases "pool s = []")
  case True
  then show ?thesis by (simp add: nextPolitician_def on_display_def)
next
  case False
  then show ?thesis
    using nextPolitician_in_range [of s] by (simp add: on_display_def)
qed

lemma handleGuess_answered: "answered (snd (handleGuess g s))"
  by (simp add: handleGuess_def Let_def split: sum.splits)

lemma on_display_handleGuess: "on_display (snd (handleGuess g s))"
  by (simp add: on_display_def handleGuess_answered)

lemma photo_onerror_pool: "pool (photo_onerror s) = splice1 (currentIndex s) (pool s)"
proof -
  let ?s1 = "s\<lparr>pool := splice1 (currentIndex s) (pool s)\<rparr>"
  let ?s2 = "if currentIndex ?s1 \<ge> length (pool ?s1) then ?s1\<lparr>currentIndex := 0\<rparr> else ?s1"
  show ?thesis
  proof (cases "length (pool ?s1) = 0")
    case True
    then show ?thesis by (simp add: photo_onerror_def Let_def)
  next
    case False
    then have "currentIndex ?s2 < length (pool ?s2) \<or> pool ?s2 = []" by auto
    then have "pool (nextPolitician ?s2) = pool ?s2" by (rule nextPolitician_pool_eq)
    moreover have "photo_onerror s = nextPolitician ?s2"
      using False by (simp add: photo_onerror_def Let_def)
    ultimately show ?thesis by simp
  qed
qed

lemma photo_onerror_advances:
  assumes "pool (photo_onerror s) \<noteq> []"
  shows "\<not> answered (photo_onerror s) \<and>
     currentIndex (photo_onerror s) < length (pool (photo_onerror s)) \<and>
     shown (photo_onerror s) = Some (pool (photo_onerror s) ! currentIndex (photo_onerror s))"
proof -
  let ?s1 = "s\<lparr>pool := splice1 (currentIndex s) (pool s)\<rparr>"
  let ?s2 = "if currentIndex ?s1 \<ge> length (pool ?s1) then ?s1\<lparr>currentIndex := 0\<rparr> else ?s1"
  have ne: "pool ?s1 \<noteq> []" using assms by (simp add: photo_onerror_pool)
  then have "photo_onerror s = nextPolitician ?s2"
    by (simp add: photo_onerror_def Let_def)
  moreover have "pool ?s2 \<noteq> []" using ne by simp
  ultimately show ?thesis using nextPolitician_in_range [of ?s2] by simp
qed

lemma on_display_photo_onerror: "on_display (photo_onerror s)"
  using photo_onerror_advances [of s] by (auto simp: on_display_def)

lemma setMode_on_display: "on_display (setMode m s)"
proof -
  obtain arr r where sh: "shuffle (selected m s) (rng s) = (arr, r)"
    by (cases "shuffle (selected m s) (rng s)")
  let ?t = "s\<lparr>mode := m, pool := arr, parties := party_list (selected m s), rng := r,
               currentIndex := 0, score := 0, total' := 0, streak := 0\<rparr>"
  have "setMode m s = nextPolitician ?t"
    using sh by (simp add: setMode_def Let_def)
  moreover have "currentIndex ?t = 0" by simp
  ultimately show ?thesis by (simp only: nextPolitician_on_display)
qed

lemma on_display_step: "on_display s \<Longrightarrow> on_display (step s e)"
proof (cases e)
  case (Keydown key)
  assume "on_display s"
  then show ?thesis
    using handleKeydown_cases [of key s] Keydown
    by (auto simp: on_display_nextPolitician on_display_handleGuess)
qed (simp_all add: on_display_handleGuess on_display_nextPolitician setMode_on_display
      on_display_photo_onerror)

lemma on_display_trace: "on_display s \<Longrightarrow> t \<in> set (trace s evs) \<Longrightarrow> on_display t"
  by (induction evs arbitrary: s) (auto dest: on_display_step)

lemma on_display_init: "init dep sen dep2 sen2 s0 = Some s \<Longrightarrow> on_display s"
  by (auto simp: init_def setMode_on_display split: prod.splits if_splits)

lemma mset_splice1:
  "i < length arr \<Longrightarrow> mset (splice1 i arr) = mset arr - {#arr ! i#}"
proof -
  assume "i < length arr"
  then have "arr = take i arr @ arr ! i # drop (Suc i) arr" by (rule id_take_nth_drop)
  then have "mset arr = mset (splice1 i arr) + {#arr ! i#}"
    by (metis splice1_def mset.simps(2) mset_append union_mset_add_mset_right add_mset_add_single)
  then show ?thesis by simp
qed

lemma step_pool_shrinks: "\<not> is_mode e \<Longrightarrow> mset (pool (step s e)) \<subseteq># mset (pool s)"
proof (cases e)
  case (Keydown key)
  then show ?thesis
    using handleKeydown_cases [of key s]
    by (auto simp: nextPolitician_pool handleGuess_keeps)
next
  case PhotoError
  have "mset (splice1 (currentIndex s) (pool s)) \<subseteq># mset (pool s)"
  proof (cases "currentIndex s < length (pool s)")
    case True
    then show ?thesis by (simp add: mset_splice1)
  next
    case False
    then show ?thesis by (simp add: splice1_def)
  qed
  with PhotoError show ?thesis by (simp add: photo_onerror_pool)
qed (simp_all add: nextPolitician_pool handleGuess_keeps)

lemma trace_pool_shrinks:
  "list_all (\<lambda>e. \<not> is_mode e) evs \<Longrightarrow> u \<in> set (trace s evs) \<Longrightarrow>
   mset (pool u) \<subseteq># mset (pool s)"
proof (induction evs arbitrary: s)
  case Nil
  then show ?case by simp
next
  case (Cons e es)
  then consider "u = s" | "u \<in> set (trace (step s e) es)" by auto
  then show ?case
  proof cases
    case 1
    then show ?thesis by simp
  next
    case 2
    with Cons have "mset (pool u) \<subseteq># mset (pool (step s e))" by simp
    moreover have "mset (pool (step s e)) \<subseteq># mset (pool s)"
      using Cons.prems(1) by (simp add: step_pool_shrinks)
    ultimately show ?thesis by (rule subset_mset.order_trans)
  qed
qed

text \<open>
  In every state a session reaches in which the current record is unanswered and the
  pool is not empty, the photo on display is that of \<^verbatim>\<open>pool[currentIndex]\<close>. If its error
  event arrives then, that record (one occurrence of it) leaves the pool; if the pool is
  not empty afterwards, the next record is on display, unanswered, without any input of
  the player; and until the next change of mode the pool never holds more than what was
  left.
\<close>

theorem photo_error_unanswered:
  assumes "init dep sen dep2 sen2 s0 = Some s" "t \<in> set (trace s evs)"
    "\<not> answered t" "pool t \<noteq> []"
  shows "currentIndex t < length (pool t) \<and> shown t = Some (pool t ! currentIndex t) \<and>
    mset (pool (photo_onerror t)) = mset (pool t) - {#pool t ! currentIndex t#} \<and>
    (pool (photo_onerror t) \<noteq> [] \<longrightarrow>
       \<not> answered (photo_onerror t) \<and>
       currentIndex (photo_onerror t) < length (pool (photo_onerror t)) \<and>
       shown (photo_onerror t) =
         Some (pool (photo_onerror t) ! currentIndex (photo_onerror t))) \<and>
    (list_all (\<lambda>e. \<not> is_mode e) evs' \<and> u \<in> set (trace (photo_onerror t) evs') \<longrightarrow>
       mset (pool u) \<subseteq># mset (pool t) - {#pool t ! currentIndex t#})"
proof -
  have "on_display t"
    using assms(1,2) on_display_init on_display_trace by blast
  then have d: "currentIndex t < length (pool t)" "shown t = Some (pool t ! currentIndex t)"
    using assms(3,4) by (auto simp: on_display_def)
  then have m: "mset (pool (photo_onerror t)) = mset (pool t) - {#pool t ! currentIndex t#}"
    by (simp add: photo_onerror_pool mset_splice1)
  show ?thesis
    using d m photo_onerror_advances [of t] trace_pool_shrinks [of evs' u "photo_onerror t"]
    by auto
qed

lemma photo_onerror_started:
  "pool (photo_onerror started) = [pol_c, pol_a] \<and> shown (photo_onerror started) = Some pol_c"
  by (simp add: photo_onerror_def nextPolitician_def splice1_def Let_def started_def)

theorem photo_error_unanswered_witness:
  "init (Json [pol_a, pol_b]) (Json [pol_c]) Rejected Rejected
     (declared (Some (js ''5'')) zeros) = Some started \<and>
   started \<in> set (trace started []) \<and> \<not> answered started \<and> pool started \<noteq> [] \<and>
   shown started = Some pol_b \<and>
   pool (photo_onerror started) = [pol_c, pol_a] \<and>
   mset (pool (photo_onerror started)) = mset (pool started) - {#pol_b#} \<and>
   shown (photo_onerror started) = Some pol_c \<and>
   list_all (\<lambda>e. \<not> is_mode e) [NextClick] \<and>
   nextPolitician (photo_onerror started) \<in> set (trace (photo_onerror started) [NextClick]) \<and>
   mset (pool (nextPolitician (photo_onerror started))) \<subseteq># mset (pool started) - {#pol_b#}"
proof -
  have t: "started \<in> set (trace started [])" by simp
  have h: "\<not> answered started" "pool started \<noteq> []"
    by (simp_all add: started_def)
  have c: "pool started ! currentIndex started = pol_b"
    by (simp add: started_def)
  have e: "list_all (\<lambda>e. \<not> is_mode e) [NextClick]"
    "nextPolitician (photo_onerror started) \<in> set (trace (photo_onerror started) [NextClick])"
    by simp_all
  from photo_error_unanswered [OF init_started t h, of "[NextClick]"
      "nextPolitician (photo_onerror started)"] init_started t h e photo_onerror_started
  show ?thesis
    unfolding c by simp
qed

lemma photo_onerror_guessed:
  "pool (photo_onerror guessed) = [pol_b, pol_a] \<and> shown (photo_onerror guessed) = Some pol_a"
  by (simp add: photo_onerror_def nextPolitician_def splice1_def Let_def guessed_def started_def)

text \<open>
  C6 after a guess. The photo of the first record of the example session is on display;
  the player guesses, and then the photo's error event arrives. The handler removes
  \<^verbatim>\<open>pool[currentIndex]\<close>, and \<open>currentIndex\<close> has moved on with the guess: the record that goes
  is the second one, which was never shown, and the record whose photo failed stays in
  the pool.
\<close>

theorem photo_error_after_guess:
  "shown (step started (GuessClick (js ''LR''))) = Some pol_b \<and>
   pool (step (step started (GuessClick (js ''LR''))) PhotoError) = [pol_b, pol_a] \<and>
   shown (step (step started (GuessClick (js ''LR''))) PhotoError) = Some pol_a"
proof -
  have a: "step started (GuessClick (js ''LR'')) = guessed"
    by (simp add: guess_LR_started)
  have b: "shown guessed = Some pol_b"
    by (simp add: guessed_def started_def)
  show ?thesis
    unfolding a by (simp add: photo_onerror_guessed b)
qed

subsection \<open>Reading the stored best streak\<close>

lemma decimal_digits: "c \<in> set (decimal n) \<Longrightarrow> is_digit c"
proof (induction n rule: decimal.induct)
  case (1 n)
  then show ?case
    by (cases "n < 10") (auto simp: decimal.simps [of n] is_digit_def)
qed

lemma decimal_value: "digits_value (decimal n) = int n"
proof (induction n rule: decimal.induct)
  case (1 n)
  show ?case
  proof (cases "n < 10")
    case True
    then show ?thesis by (simp add: decimal.simps [of n] digits_value_def)
  next
    case False
    with 1 have "digits_value (decimal (n div 10)) = int (n div 10)" by simp
    with False show ?thesis
      by (simp add: decimal.simps [of n] digits_value_def zdiv_int zmod_int)
  qed
qed

lemma decimal_hd: "\<exists>c r. decimal n = c # r \<and> is_digit c"
proof -
  have "decimal n \<noteq> []"
    by (cases "n < 10") (simp_all add: decimal.simps [of n])
  then obtain c r where cr: "decimal n = c # r" by (cases "decimal n") auto
  then have "c \<in> set (decimal n)" by simp
  then have "is_digit c" by (rule decimal_digits)
  with cr show ?thesis by blast
qed

lemma digit_chars: "is_digit c \<Longrightarrow> \<not> StrWhiteSpaceChar c \<and> c \<noteq> 43 \<and> c \<noteq> 45"
  by (auto simp: is_digit_def StrWhiteSpaceChar_def)

lemma parseInt10_decimal: "parseInt10 (decimal n) = Num (int n)"
proof -
  obtain c r where cr: "decimal n = c # r" "is_digit c"
    using decimal_hd by blast
  have tw: "takeWhile is_digit (decimal n) = decimal n"
    by (rule takeWhile_eq_all_conv [THEN iffD2]) (simp add: decimal_digits)
  have dw: "dropWhile StrWhiteSpaceChar (decimal n) = decimal n"
    using cr digit_chars [of c] by simp
  have sg: "(case decimal n of c # _ \<Rightarrow> if c = 45 then - 1 else 1 | [] \<Rightarrow> (1::int)) = 1"
    using cr digit_chars [of c] by simp
  have s1: "(case decimal n of c # r \<Rightarrow> if c = 43 \<or> c = 45 then r else decimal n
             | [] \<Rightarrow> decimal n) = decimal n"
    using cr digit_chars [of c] by simp
  have ne: "decimal n \<noteq> []" using cr by simp
  show ?thesis
    unfolding parseInt10_def Let_def dw sg s1 tw
    using ne by (simp add: decimal_value)
qed

text \<open>
  No item, or an empty one, is read as 0; the decimal digits of \<open>n\<close>, which is what
  \<^verbatim>\<open>handleGuess\<close> stores, are read as \<open>n\<close>.
\<close>

theorem read_best_roundtrip:
  "read_best None = Num 0 \<and> read_best (Some []) = Num 0 \<and>
   read_best (Some (decimal n)) = Num (int n)"
proof -
  have z: "parseInt10 (js ''0'') = Num 0"
    by (simp add: parseInt10_def js_def StrWhiteSpaceChar_def is_digit_def digits_value_def)
  have "decimal n \<noteq> []" using decimal_hd [of n] by auto
  then show ?thesis
    by (simp add: read_best_def z parseInt10_decimal)
qed

lemma decimal_12: "decimal 12 = js ''12''"
  by (simp add: decimal.simps js_def)

theorem read_best_roundtrip_witness: "read_best (Some (js ''12'')) = Num 12"
  using read_best_roundtrip [of 12] by (simp add: decimal_12)

text \<open>
  C7 at a stored value that is not a number: \<^verbatim>\<open>parseInt("abc", 10)\<close> is \<^verbatim>\<open>NaN\<close>, not 0, and a
  stored \<^verbatim>\<open>"-3"\<close> is read as the negative number it spells.
\<close>

theorem read_best_corrupt:
  "read_best (Some (js ''abc'')) = NaN \<and> read_best (Some (js ''-3'')) = Num (- 3)"
  by (simp add: read_best_def parseInt10_def js_def StrWhiteSpaceChar_def is_digit_def
      digits_value_def)

subsection \<open>\<^verbatim>\<open>getPartyConfig\<close>\<close>

lemma abs_js_rem: "\<bar>js_rem a 360\<bar> = \<bar>a\<bar> mod 360"
  by (cases "a = 0") (simp_all add: js_rem_def abs_mult abs_sgn_eq)

lemma registry_truthy_get:
  "map_of PARTY_COLORS code = Some cfg \<Longrightarrow> PARTY_COLORS_get (Str code) = Some cfg"
  by (simp add: PARTY_COLORS_get_def)

lemma getPartyConfig_registry:
  "map_of PARTY_COLORS code = Some cfg \<Longrightarrow> getPartyConfig (Str code) arr = Inr cfg"
  by (simp add: getPartyConfig_def registry_truthy_get)

lemma getPartyConfig_generated:
  assumes "map_of PARTY_COLORS code = None" "map_of Object_prototype code = None"
  shows "getPartyConfig (Str code) arr =
    Inr \<lparr>name = (case find (\<lambda>p. groupe_sigle p = Str code) arr of
                    Some p \<Rightarrow> if truthy (groupe_nom p) then groupe_nom p else Str code
                  | None \<Rightarrow> Str code),
         color = Str (js ''hsl('' @ decimal (nat (\<bar>hash_of code\<bar> mod 360)) @ js '', 55%, 45%)'')\<rparr>"
  using assms by (simp add: getPartyConfig_def PARTY_COLORS_get_def Let_def abs_js_rem)

text \<open>
  \<^verbatim>\<open>getPartyConfig\<close> on a group code that is a string. A key of the registry gives its
  entry. A code that is neither a key of the registry nor the name of a property inherited
  from \<^verbatim>\<open>Object.prototype\<close> gives a name and a colour: the name is the group name of the
  first record of the pool with that code when that name is a non-empty string, else the
  code; the colour is \<^verbatim>\<open>hsl(hue, 55%, 45%)\<close> with \<open>hue = |hash| mod 360\<close>, and is the same
  for every pool.
\<close>

theorem getPartyConfig_resolution:
  "(map_of PARTY_COLORS code = Some cfg \<longrightarrow> getPartyConfig (Str code) arr = Inr cfg) \<and>
   (map_of PARTY_COLORS code = None \<and> map_of Object_prototype code = None \<longrightarrow>
      (\<exists>nm hue. getPartyConfig (Str code) arr =
           Inr \<lparr>name = Str nm, color = Str (js ''hsl('' @ decimal hue @ js '', 55%, 45%)'')\<rparr> \<and>
         hue < 360 \<and> int hue = \<bar>hash_of code\<bar> mod 360 \<and>
         (case find (\<lambda>p. groupe_sigle p = Str code) arr of
            Some p \<Rightarrow> if truthy (groupe_nom p) then groupe_nom p = Str nm else nm = code
          | None \<Rightarrow> nm = code) \<and>
         (nm = code \<or> (\<exists>p \<in> set arr. groupe_sigle p = Str code \<and> groupe_nom p = Str nm \<and> nm \<noteq> []))) \<and>
      map_sum id color (getPartyConfig (Str code) arr) =
        map_sum id color (getPartyConfig (Str code) arr'))"
proof (intro conjI impI)
  assume "map_of PARTY_COLORS code = Some cfg"
  then show "getPartyConfig (Str code) arr = Inr cfg" by (rule getPartyConfig_registry)
next
  assume a: "map_of PARTY_COLORS code = None \<and> map_of Object_prototype code = None"
  let ?hue = "nat (\<bar>hash_of code\<bar> mod 360)"
  have hue: "?hue < 360" "int ?hue = \<bar>hash_of code\<bar> mod 360" by simp_all
  show "\<exists>nm hue. getPartyConfig (Str code) arr =
           Inr \<lparr>name = Str nm, color = Str (js ''hsl('' @ decimal hue @ js '', 55%, 45%)'')\<rparr> \<and>
         hue < 360 \<and> int hue = \<bar>hash_of code\<bar> mod 360 \<and>
         (case find (\<lambda>p. groupe_sigle p = Str code) arr of
            Some p \<Rightarrow> if truthy (groupe_nom p) then groupe_nom p = Str nm else nm = code
          | None \<Rightarrow> nm = code) \<and>
         (nm = code \<or> (\<exists>p \<in> set arr. groupe_sigle p = Str code \<and> groupe_nom p = Str nm \<and> nm \<noteq> []))"
  proof (cases "find (\<lambda>p. groupe_sigle p = Str code) arr")
    case None
    with a hue show ?thesis
      by (intro exI [of _ code] exI [of _ ?hue]) (simp add: getPartyConfig_generated)
  next
    case (Some p)
    then have p: "p \<in> set arr" "groupe_sigle p = Str code"
      by (auto simp: find_Some_iff)
    show ?thesis
    proof (cases "truthy (groupe_nom p)")
      case True
      then obtain nm where nm: "groupe_nom p = Str nm" "nm \<noteq> []"
        by (cases "groupe_nom p") auto
      with a hue Some p show ?thesis
        by (intro exI [of _ nm] exI [of _ ?hue]) (auto simp: getPartyConfig_generated)
    next
      case False
      with a hue Some show ?thesis
        by (intro exI [of _ code] exI [of _ ?hue]) (simp add: getPartyConfig_generated)
    qed
  qed
  show "map_sum id color (getPartyConfig (Str code) arr) =
        map_sum id color (getPartyConfig (Str code) arr')"
    using a by (simp add: getPartyConfig_generated)
qed

lemma hash_XYZ: "hash_of (js ''XYZ'') = 87417"
  by (simp add: hash_of_def shl5_def js_def)

lemma decimal_297: "decimal 297 = js ''297''"
  by (simp add: decimal.simps js_def)

lemma registry_RN:
  "map_of PARTY_COLORS (js ''RN'') =
     Some \<lparr>name = Str (js ''Rassemblement National''), color = Str (js ''#0D378A'')\<rparr>"
  by (simp add: PARTY_COLORS_def entry_def)

lemma unknown_XYZ:
  "map_of PARTY_COLORS (js ''XYZ'') = None \<and> map_of Object_prototype (js ''XYZ'') = None"
  by (simp add: PARTY_COLORS_def Object_prototype_def entry_def builtin_def js_def)

theorem getPartyConfig_resolution_witness:
  "map_of PARTY_COLORS (js ''RN'') =
     Some \<lparr>name = Str (js ''Rassemblement National''), color = Str (js ''#0D378A'')\<rparr> \<and>
   getPartyConfig (Str (js ''RN'')) [] =
     Inr \<lparr>name = Str (js ''Rassemblement National''), color = Str (js ''#0D378A'')\<rparr> \<and>
   map_of PARTY_COLORS (js ''XYZ'') = None \<and> map_of Object_prototype (js ''XYZ'') = None \<and>
   getPartyConfig (Str (js ''XYZ'')) [pol_b, pol_a\<lparr>groupe_sigle := Str (js ''XYZ'')\<rparr>] =
     Inr \<lparr>name = Str (js ''Socialistes''), color = Str (js ''hsl(297, 55%, 45%)'')\<rparr>"
proof -
  let ?arr = "[pol_b, pol_a\<lparr>groupe_sigle := Str (js ''XYZ'')\<rparr>]"
  have f: "find (\<lambda>p. groupe_sigle p = Str (js ''XYZ'')) ?arr =
      Some (pol_a\<lparr>groupe_sigle := Str (js ''XYZ'')\<rparr>)"
    by (simp add: pol_b_def js_def)
  have n: "groupe_nom (pol_a\<lparr>groupe_sigle := Str (js ''XYZ'')\<rparr>) = Str (js ''Socialistes'')"
    "js ''Socialistes'' \<noteq> []"
    by (simp_all add: pol_a_def js_def)
  have hue: "\<And>hue. int hue = \<bar>hash_of (js ''XYZ'')\<bar> mod 360 \<Longrightarrow> hue = 297"
    by (simp add: hash_XYZ)
  have col: "js ''hsl('' @ decimal 297 @ js '', 55%, 45%)'' = js ''hsl(297, 55%, 45%)''"
    by (simp add: decimal_297 js_def)
  from getPartyConfig_resolution [of "js ''RN''" _ "[]"]
    registry_RN
  have rn: "getPartyConfig (Str (js ''RN'')) [] =
     Inr \<lparr>name = Str (js ''Rassemblement National''), color = Str (js ''#0D378A'')\<rparr>"
    by blast
  from getPartyConfig_resolution [of "js ''XYZ''" _ ?arr] unknown_XYZ
  obtain nm hue where r: "getPartyConfig (Str (js ''XYZ'')) ?arr =
           Inr \<lparr>name = Str nm, color = Str (js ''hsl('' @ decimal hue @ js '', 55%, 45%)'')\<rparr>"
      "int hue = \<bar>hash_of (js ''XYZ'')\<bar> mod 360"
      "(case find (\<lambda>p. groupe_sigle p = Str (js ''XYZ'')) ?arr of
            Some p \<Rightarrow> if truthy (groupe_nom p) then groupe_nom p = Str nm else nm = js ''XYZ''
          | None \<Rightarrow> nm = js ''XYZ'')"
    by blast
  from r(3) have "nm = js ''Socialistes''"
    unfolding f using n by simp
  moreover from r(2) have "hue = 297" by (rule hue)
  ultimately have "getPartyConfig (Str (js ''XYZ'')) ?arr =
     Inr \<lparr>name = Str (js ''Socialistes''), color = Str (js ''hsl(297, 55%, 45%)'')\<rparr>"
    using r(1) col by simp
  with rn registry_RN unknown_XYZ show ?thesis by simp
qed

text \<open>
  C9 at the group code \<^verbatim>\<open>"constructor"\<close>. It is not a key of the registry, but
  \<^verbatim>\<open>PARTY_COLORS["constructor"]\<close> is the function \<^verbatim>\<open>Object\<close>, inherited from the prototype,
  and \<^verbatim>\<open>getPartyConfig\<close> returns it: its \<^verbatim>\<open>name\<close> is \<^verbatim>\<open>"Object"\<close> and it has no \<^verbatim>\<open>color\<close>.
\<close>

theorem getPartyConfig_constructor:
  "map_of PARTY_COLORS (js ''constructor'') = None \<and>
   getPartyConfig (Str (js ''constructor'')) (pool started) =
     Inr \<lparr>name = Str (js ''Object''), color = Undefined\<rparr>"
  by (simp add: getPartyConfig_def PARTY_COLORS_get_def PARTY_COLORS_def Object_prototype_def
      entry_def builtin_def js_def)

end
